theory Spec2Isabelle
  imports Main
begin

section \<open>The confirmed-native deposit scanner (src/confirmed-native-extra.ts)\<close>

text \<open>
  The worker takes an order id from a queue, loads the order, fetches the transaction list
  of the order's deposit address from the Etherscan API, keeps the first ten transactions
  with a positive value and, for each of them that is not older than the order, calls
  \<open>scanTxId\<close>, which credits the order through the internal GraphQL client.

  The TypeScript is embedded function by function. Promises become results of type
  \<open>error + 'a\<close> (\<open>Inl\<close> is a rejection or a thrown exception); the effects a task has
  on the outside (calls to the ledger, log lines) are threaded through a \<open>world\<close> record.
  Everything the file imports and does not define (the database, axios, ethers, the \<open>ns\<close>
  arithmetic wrapper, the GraphQL client, the unique-id helper, the scheduling of p-map) is a
  field of the application context, so that the theorems hold for every behaviour of those
  collaborators.
\<close>

subsection \<open>Values\<close>

text \<open>JavaScript exceptions: the class and its \<open>message\<close>.\<close>

datatype error =
    Error (message: string)
  | TypeError (message: string)
  | ZodError (message: string)
  | AxiosError (message: string)

text \<open>
  A decoded JSON value, as axios hands it over. Numbers are restricted to integers and a
  missing property reads as \<open>JUndefined\<close>. The properties of an object are a list of
  bindings with distinct keys.
\<close>

datatype json =
    JUndefined
  | JNull
  | JBool bool
  | JNum int
  | JStr string
  | JArr "json list"
  | JObj "(string \<times> json) list"

text \<open>The body of the Etherscan answer: \<open>data.status\<close> and \<open>data.result\<close>.\<close>

record response =
  status :: json
  result :: json

text \<open>
  \<open>EtherscanTransaction\<close>, the element type of \<open>accountTxListResultSchema\<close> (lines 17-28,
  49). All eight fields are strings. \<open>from\<close> and \<open>value\<close> are reserved words of Isabelle,
  hence the primes.
\<close>

record EtherscanTransaction =
  hash :: string
  from' :: string
  to :: string
  value' :: string
  timeStamp :: string
  gasPrice :: string
  gas :: string
  gasUsed :: string

text \<open>
  The \<open>Order\<close> entity as far as the worker reads it: \<open>createdAt\<close> is the value of
  \<open>order.createdAt.getTime()\<close> (milliseconds), \<open>depositAddress\<close> is
  \<open>order.depositAddress.address\<close>, or \<open>None\<close> when the order has no deposit address.
\<close>

record Order =
  order_id :: string
  createdAt :: int
  depositAddress :: "string option"

record nativeMethod =
  asset :: string

text \<open>The argument of \<open>maybeInternalCreateDeposit\<close> (lines 107-114).\<close>

record deposit_input =
  orderId :: string
  txid :: string
  amount :: string
  uniqueId :: string

datatype level = LInfo | LWarn | LError

datatype logarg = S string | N nat

text \<open>A log line: level, the error object passed first (if any), format string, arguments.\<close>

datatype log_entry = Log level "error option" string "logarg list"

text \<open>
  What a task changes outside itself: the state of the ledger behind the GraphQL client,
  the credit calls issued so far and the lines logged so far (oldest first).
\<close>

record 'l world =
  ledger :: 'l
  calls :: "deposit_input list"
  logs :: "log_entry list"

text \<open>
  The application context (lines 34-47) together with the imported collaborators:
  \<^item> \<open>findOneBy\<close>: \<open>db.getRepository(Order).findOneBy({ id })\<close>;
  \<^item> \<open>axios_get\<close>: \<open>axios.get(url)\<close>, the decoded body or a transport error;
  \<^item> \<open>BigNumber_from\<close>: \<open>ethers.BigNumber.from\<close>, which throws on a string that is no number;
  \<^item> \<open>formatEther\<close>: \<open>ethers.utils.formatEther\<close>;
  \<^item> \<open>ns_sum\<close>, \<open>ns_times\<close>: the \<open>ns\<close> wrapper of bignumber.js on numeric strings;
  \<^item> \<open>js_Number\<close>: JavaScript's \<open>Number(string)\<close>, with \<open>None\<close> for \<open>NaN\<close>; the
    timestamps of the feed are whole seconds, so fractions and floating-point rounding are
    left out;
  \<^item> \<open>maybeInternalCreateDeposit\<close>: the GraphQL call, which answers whether the deposit was
    newly created, or fails, and may change the ledger;
  \<^item> \<open>getEthereumNativeDepositUniqueId\<close>: the helper of \<open>./shared\<close>;
  \<^item> \<open>pMap_startsLate\<close>, \<open>pMap_firstRejected\<close>: what p-map does once a mapper has failed,
    see \<open>pMap\<close> below.
\<close>

record 'l app_context =
  account :: string
  etherscanApiKey :: string
  nativeMethod :: nativeMethod
  findOneBy :: "string \<Rightarrow> error + Order option"
  axios_get :: "string \<Rightarrow> error + response"
  BigNumber_from :: "string \<Rightarrow> error + int"
  formatEther :: "string \<Rightarrow> error + string"
  ns_sum :: "string \<Rightarrow> string \<Rightarrow> error + string"
  ns_times :: "string \<Rightarrow> string \<Rightarrow> error + string"
  js_Number :: "string \<Rightarrow> int option"
  maybeInternalCreateDeposit :: "deposit_input \<Rightarrow> 'l \<Rightarrow> (error + bool) \<times> 'l"
  getEthereumNativeDepositUniqueId :: "nativeMethod \<Rightarrow> string \<Rightarrow> string"
  pMap_startsLate :: "nat \<Rightarrow> bool"
  pMap_firstRejected :: nat

subsection \<open>JavaScript built-ins\<close>

text \<open>\<open>String.prototype.toLowerCase\<close> on ASCII text (addresses are hexadecimal ASCII).\<close>

definition toLowerCaseChar :: "char \<Rightarrow> char" where
  "toLowerCaseChar c =
     (case map_of (zip ''ABCDEFGHIJKLMNOPQRSTUVWXYZ'' ''abcdefghijklmnopqrstuvwxyz'') c of
        Some d \<Rightarrow> d
      | None \<Rightarrow> c)"

definition toLowerCase :: "string \<Rightarrow> string" where
  "toLowerCase s = map toLowerCaseChar s"

text \<open>Decimal rendering of an integer; \<open>dec_digits\<close> is meant for \<open>0 \<le> n\<close>.\<close>

function dec_digits :: "int \<Rightarrow> string" where
  "dec_digits n =
     (if n < 10 then [''0123456789'' ! nat n]
      else dec_digits (n div 10) @ [''0123456789'' ! nat (n mod 10)])"
  by pat_completeness auto
termination
  by (relation "measure nat") auto

declare dec_digits.simps [simp del]

definition dec_of_int :: "int \<Rightarrow> string" where
  "dec_of_int i = (if i < 0 then ''-'' @ dec_digits (- i) else dec_digits i)"

text \<open>
  \<open>String(v)\<close>, which a template literal applies: an array is the comma-separated list of
  its elements, with \<open>null\<close> and \<open>undefined\<close> elements empty.
\<close>

fun join_comma :: "string list \<Rightarrow> string" where
  "join_comma [] = []"
| "join_comma [x] = x"
| "join_comma (x # y # ys) = x @ '','' @ join_comma (y # ys)"

fun js_String :: "json \<Rightarrow> string" where
  "js_String JUndefined = ''undefined''"
| "js_String JNull = ''null''"
| "js_String (JBool b) = (if b then ''true'' else ''false'')"
| "js_String (JNum i) = dec_of_int i"
| "js_String (JStr s) = s"
| "js_String (JArr xs) =
     join_comma (map (\<lambda>x. case x of JUndefined \<Rightarrow> [] | JNull \<Rightarrow> [] | _ \<Rightarrow> js_String x) xs)"
| "js_String (JObj kvs) = ''[object Object]''"

text \<open>
  \<open>v > 0\<close>: JavaScript converts the value to a number (\<open>true\<close> is 1, \<open>null\<close> is 0,
  \<open>undefined\<close> is \<open>NaN\<close>, a string is read by \<open>Number\<close>, an array or an object through
  its string), and a comparison with \<open>NaN\<close> is false. \<open>number\<close> stands for \<open>Number\<close>.
\<close>

definition js_positive :: "(string \<Rightarrow> int option) \<Rightarrow> json \<Rightarrow> bool" where
  "js_positive number v =
     (case v of
        JUndefined \<Rightarrow> False
      | JNull \<Rightarrow> False
      | JBool b \<Rightarrow> b
      | JNum i \<Rightarrow> 0 < i
      | JStr s \<Rightarrow> (case number s of None \<Rightarrow> False | Some n \<Rightarrow> 0 < n)
      | JArr xs \<Rightarrow> (case number (js_String v) of None \<Rightarrow> False | Some n \<Rightarrow> 0 < n)
      | JObj kvs \<Rightarrow> (case number (js_String v) of None \<Rightarrow> False | Some n \<Rightarrow> 0 < n))"

text \<open>
  \<open>v.length > 0\<close>: reading a property of \<open>null\<close> or \<open>undefined\<close> throws; strings and
  arrays have a length; a boolean and a number have none, and \<open>undefined > 0\<close> is false;
  an object has the one it binds, if any, which is compared as \<open>js_positive\<close> says.
\<close>

definition length_positive :: "(string \<Rightarrow> int option) \<Rightarrow> json \<Rightarrow> error + bool" where
  "length_positive number v =
     (case v of
        JUndefined \<Rightarrow> Inl (TypeError ''Cannot read properties of undefined (reading 'length')'')
      | JNull \<Rightarrow> Inl (TypeError ''Cannot read properties of null (reading 'length')'')
      | JBool b \<Rightarrow> Inr False
      | JNum i \<Rightarrow> Inr False
      | JStr s \<Rightarrow> Inr (0 < length s)
      | JArr xs \<Rightarrow> Inr (0 < length xs)
      | JObj kvs \<Rightarrow>
          (case map_of kvs ''length'' of
             None \<Rightarrow> Inr False
           | Some w \<Rightarrow> Inr (js_positive number w)))"

subsection \<open>The schema (lines 17-28)\<close>

text \<open>
  \<open>z.string()\<close> accepts strings only; \<open>z.object\<close> accepts an object that binds each of the
  eight keys to a string and drops every other key; \<open>z.array\<close> accepts an array all of
  whose elements parse. The text of zod's message is not modelled.
\<close>

definition zString :: "json \<Rightarrow> string option" where
  "zString v = (case v of JStr s \<Rightarrow> Some s | _ \<Rightarrow> None)"

definition property :: "(string \<times> json) list \<Rightarrow> string \<Rightarrow> json" where
  "property kvs k = (case map_of kvs k of None \<Rightarrow> JUndefined | Some v \<Rightarrow> v)"

definition zTransaction :: "json \<Rightarrow> EtherscanTransaction option" where
  "zTransaction v =
     (case v of
        JObj kvs \<Rightarrow>
          (case those (map (\<lambda>k. zString (property kvs k))
                  [''hash'', ''from'', ''to'', ''value'', ''timeStamp'', ''gasPrice'', ''gas'',
                   ''gasUsed'']) of
             Some [h, f, t, v, ts, gp, g, gu] \<Rightarrow>
               Some \<lparr>hash = h, from' = f, to = t, value' = v, timeStamp = ts, gasPrice = gp,
                     gas = g, gasUsed = gu\<rparr>
           | _ \<Rightarrow> None)
      | _ \<Rightarrow> None)"

definition accountTxListResultSchema_parse :: "json \<Rightarrow> error + EtherscanTransaction list" where
  "accountTxListResultSchema_parse v =
     (case v of
        JArr xs \<Rightarrow>
          (case those (map zTransaction xs) of
             Some txs \<Rightarrow> Inr txs
           | None \<Rightarrow> Inl (ZodError ''invalid_type''))
      | _ \<Rightarrow> Inl (ZodError ''invalid_type''))"

subsection \<open>Logging\<close>

definition logger :: "level \<Rightarrow> error option \<Rightarrow> string \<Rightarrow> logarg list \<Rightarrow> 'l world \<Rightarrow> 'l world" where
  "logger lv obj fmt args s = s\<lparr>logs := logs s @ [Log lv obj fmt args]\<rparr>"

subsection \<open>scanTxId (lines 61-122)\<close>

text \<open>Line 95: \<open>ns.sum(tx.value, ns.times(tx.gas, tx.gasPrice))\<close>.\<close>

definition settlementTotal :: "'l app_context \<Rightarrow> EtherscanTransaction \<Rightarrow> error + string" where
  "settlementTotal ctx tx =
     (case ns_times ctx (gas tx) (gasPrice tx) of
        Inl e \<Rightarrow> Inl e
      | Inr fee \<Rightarrow> ns_sum ctx (value' tx) fee)"

text \<open>
  Lines 91-114 up to the call itself: the gas-price check, the total, the two renderings,
  and the argument record of the credit call. The result is \<open>valueAsEther\<close> and that
  argument.
\<close>

definition prepareDeposit ::
  "'l app_context \<Rightarrow> EtherscanTransaction \<Rightarrow> string \<Rightarrow> error + (string \<times> deposit_input)" where
  "prepareDeposit ctx tx oid =
     (if gasPrice tx = [] then Inl (Error ''Unsupported EIP-1559 sweep transaction'')
      else
        case settlementTotal ctx tx of
          Inl e \<Rightarrow> Inl e
        | Inr total' \<Rightarrow>
            (case formatEther ctx (value' tx) of
               Inl e \<Rightarrow> Inl e
             | Inr valueAsEther \<Rightarrow>
                 (case formatEther ctx total' of
                    Inl e \<Rightarrow> Inl e
                  | Inr totalAsEther \<Rightarrow>
                      Inr (valueAsEther,
                           \<lparr>orderId = oid, txid = hash tx, amount = totalAsEther,
                            uniqueId =
                              getEthereumNativeDepositUniqueId ctx (nativeMethod ctx) (hash tx)\<rparr>))))"

definition scanTxId ::
  "'l app_context \<Rightarrow> EtherscanTransaction \<Rightarrow> string \<Rightarrow> 'l world \<Rightarrow> (error + bool) \<times> 'l world" where
  "scanTxId ctx tx oid s =
     (if to tx = [] then (Inr False, s)
      else if toLowerCase (to tx) \<noteq> toLowerCase (account ctx) then (Inr False, s)
      else
        case prepareDeposit ctx tx oid of
          Inl e \<Rightarrow> (Inl e, s)
        | Inr (valueAsEther, input) \<Rightarrow>
            (case maybeInternalCreateDeposit ctx input (ledger s) of
               (r, l) \<Rightarrow>
                 (let s1 = s\<lparr>ledger := l, calls := calls s @ [input]\<rparr>
                  in case r of
                       Inl e \<Rightarrow> (Inl e, s1)
                     | Inr wasCredited \<Rightarrow>
                         if \<not> wasCredited then (Inr False, s1)
                         else
                           (Inr True,
                            logger LInfo None
                              (''Stored deposit. '' @ hash tx @ ''. '' @ valueAsEther @ '' ''
                                 @ asset (nativeMethod ctx) @ '' for order '' @ oid)
                              [] s1))))"

subsection \<open>getEtherScanTxListForAddress (lines 134-142)\<close>

definition etherscanUrl :: "'l app_context \<Rightarrow> string \<Rightarrow> string" where
  "etherscanUrl ctx address =
     ''https://api.etherscan.io/api?module=account&action=txlist&address='' @ address
       @ ''&sort=desc&apikey='' @ etherscanApiKey ctx"

definition getEtherScanTxListForAddress ::
  "'l app_context \<Rightarrow> string \<Rightarrow> error + EtherscanTransaction list" where
  "getEtherScanTxListForAddress ctx address =
     (case axios_get ctx (etherscanUrl ctx address) of
        Inl e \<Rightarrow> Inl e
      | Inr data \<Rightarrow>
          if status data = JStr ''0'' then
            (case length_positive (js_Number ctx) (result data) of
               Inl e \<Rightarrow> Inl e
             | Inr True \<Rightarrow>
                 Inl (Error (''Received error '' @ js_String (result data)
                               @ '' from Etherscan API''))
             | Inr False \<Rightarrow> accountTxListResultSchema_parse (result data))
          else accountTxListResultSchema_parse (result data))"

subsection \<open>runScanByOrderId (lines 153-230)\<close>

text \<open>
  \<open>pMap\<close> with its default options (unbounded concurrency, \<open>stopOnError\<close>). In every
  version of p-map the mappers are started in the order of the list; the promise resolves,
  with the results, when every mapper has run and none has failed; otherwise it rejects with
  the error of a mapper that failed, the first one to fail in time.

  Two things the source does not determine, because they depend on the version of p-map and
  on timing, are parameters:
  \<^item> \<open>late i\<close>: whether the mapper is still started on the element at position \<open>i\<close> once
    the mapper of an earlier element has failed (up to p-map 5.0.0 all mappers are started
    at once; from 5.5.0 a mapper that throws at once keeps the later ones from starting);
  \<^item> \<open>pick\<close>: which of the errors of the failed mappers is the first in time.

  \<open>pMap_from\<close> walks the list with the errors and results so far. The mappers that are
  started run one after the other, each as a whole: the credit calls appear in the order
  in which they are issued and the ledger serves them in that order, but the lines that
  different mappers log after their credit call returned are not interleaved as they may
  be in a run.
\<close>

fun pMap_from ::
  "(nat \<Rightarrow> bool) \<Rightarrow> ('a \<Rightarrow> 's \<Rightarrow> (error + 'b) \<times> 's) \<Rightarrow> nat \<Rightarrow> 'a list \<Rightarrow> error list \<Rightarrow> 'b list
     \<Rightarrow> 's \<Rightarrow> (error list \<times> 'b list) \<times> 's" where
  "pMap_from late mapper i [] errs ys s = ((errs, ys), s)"
| "pMap_from late mapper i (x # xs) errs ys s =
     (if errs \<noteq> [] \<and> \<not> late i then pMap_from late mapper (Suc i) xs errs ys s
      else
        case mapper x s of
          (Inl e, s1) \<Rightarrow> pMap_from late mapper (Suc i) xs (errs @ [e]) ys s1
        | (Inr y, s1) \<Rightarrow> pMap_from late mapper (Suc i) xs errs (ys @ [y]) s1)"

definition pMap ::
  "(nat \<Rightarrow> bool) \<Rightarrow> nat \<Rightarrow> ('a \<Rightarrow> 's \<Rightarrow> (error + 'b) \<times> 's) \<Rightarrow> 'a list \<Rightarrow> 's
     \<Rightarrow> (error + 'b list) \<times> 's" where
  "pMap late pick mapper xs s =
     (case pMap_from late mapper 0 xs [] [] s of
        ((errs, ys), s1) \<Rightarrow>
          (if errs = [] then Inr ys else Inl (errs ! (pick mod length errs)), s1))"

text \<open>
  Line 188: \<open>txs.filter(tx => ethers.BigNumber.from(tx.value).gt(0))\<close>. The predicate
  throws on a value that is no number, and the exception leaves \<open>filter\<close>.
\<close>

fun filterPositive ::
  "'l app_context \<Rightarrow> EtherscanTransaction list \<Rightarrow> error + EtherscanTransaction list" where
  "filterPositive ctx [] = Inr []"
| "filterPositive ctx (tx # txs) =
     (case BigNumber_from ctx (value' tx) of
        Inl e \<Rightarrow> Inl e
      | Inr v \<Rightarrow>
          (case filterPositive ctx txs of
             Inl e \<Rightarrow> Inl e
           | Inr rest \<Rightarrow> Inr (if 0 < v then tx # rest else rest)))"

text \<open>
  Lines 216-223: \<open>Number(etherscanTx.timeStamp) * 1000 < order.createdAt.getTime()\<close>; a
  comparison with \<open>NaN\<close> is false.
\<close>

definition beforeOrder :: "'l app_context \<Rightarrow> Order \<Rightarrow> EtherscanTransaction \<Rightarrow> bool" where
  "beforeOrder ctx order tx =
     (case js_Number ctx (timeStamp tx) of
        None \<Rightarrow> False
      | Some n \<Rightarrow> n * 1000 < createdAt order)"

text \<open>The mapper handed to \<open>pMap\<close> (lines 195-228).\<close>

definition scanCandidate ::
  "'l app_context \<Rightarrow> Order \<Rightarrow> string \<Rightarrow> EtherscanTransaction \<Rightarrow> 'l world
     \<Rightarrow> (error + unit) \<times> 'l world" where
  "scanCandidate ctx order oid etherscanTx s =
     (if beforeOrder ctx order etherscanTx then
        (Inr (),
         logger LWarn None ''Ignoring tx %s that happened before order %s was created''
           [S (hash etherscanTx), S oid] s)
      else
        case scanTxId ctx etherscanTx oid
               (logger LInfo None ''Scanning tx %s'' [S (hash etherscanTx)] s) of
          (Inl e, s1) \<Rightarrow> (Inl e, s1)
        | (Inr b, s1) \<Rightarrow> (Inr (), s1))"

text \<open>
  The handler given to \<open>queue.run\<close> (lines 161-229), for one delivered order id. \<open>Inr ()\<close>
  is a handler that returns; \<open>Inl e\<close> is a handler whose promise rejects with \<open>e\<close>.
\<close>

definition scanOrder :: "'l app_context \<Rightarrow> string \<Rightarrow> 'l world \<Rightarrow> (error + unit) \<times> 'l world" where
  "scanOrder ctx oid s =
     (let s0 = logger LInfo None ''Processing queued task to look at order %s for deposits''
                 [S oid] s
      in case findOneBy ctx oid of
           Inl e \<Rightarrow> (Inl e, s0)
         | Inr None \<Rightarrow> (Inr (), logger LError None ''Order %s not found'' [S oid] s0)
         | Inr (Some order) \<Rightarrow>
             (case depositAddress order of
                None \<Rightarrow>
                  (Inr (), logger LError None ''Order %s has no deposit address'' [S oid] s0)
              | Some address \<Rightarrow>
                  (case getEtherScanTxListForAddress ctx address of
                     Inl err \<Rightarrow>
                       (Inr (),
                        logger LError (Some err) ''Error fetching txs for order %s: %s''
                          [S oid, S (message err)] s0)
                   | Inr fetched \<Rightarrow>
                       (case filterPositive ctx fetched of
                          Inl e \<Rightarrow> (Inl e, s0)
                        | Inr positive \<Rightarrow>
                            (let txs = take 10 positive;
                                 s1 = logger LInfo None ''Found %s transactions for order %s''
                                        [N (length txs), S oid] s0
                             in case pMap (pMap_startsLate ctx) (pMap_firstRejected ctx)
                                       (scanCandidate ctx order oid) txs s1 of
                                  (Inl e, s2) \<Rightarrow> (Inl e, s2)
                                | (Inr rs, s2) \<Rightarrow> (Inr (), s2))))))"

text \<open>
  \<open>runScanByOrderId\<close> itself: without an API key nothing is taken from the queue;
  otherwise the queue (a parameter here) runs the handler.
\<close>

definition runScanByOrderId ::
  "'l app_context
     \<Rightarrow> ((string \<Rightarrow> 'l world \<Rightarrow> (error + unit) \<times> 'l world) \<Rightarrow> 'l world \<Rightarrow> 'l world)
     \<Rightarrow> 'l world \<Rightarrow> 'l world" where
  "runScanByOrderId ctx queue_run s =
     (if etherscanApiKey ctx = [] then logger LError None ''Etherscan not configured'' [] s
      else queue_run (scanOrder ctx) s)"

section \<open>Vocabulary of the statements\<close>

text \<open>The two tests \<open>scanTxId\<close> makes on \<open>tx.to\<close> (lines 76-84), both passed.\<close>

definition sweepToAccount :: "'l app_context \<Rightarrow> EtherscanTransaction \<Rightarrow> bool" where
  "sweepToAccount ctx tx = (to tx \<noteq> [] \<and> toLowerCase (to tx) = toLowerCase (account ctx))"

text \<open>The predicate of the filter of line 188, where it does not throw.\<close>

definition valuePositive :: "'l app_context \<Rightarrow> EtherscanTransaction \<Rightarrow> bool" where
  "valuePositive ctx tx =
     (case BigNumber_from ctx (value' tx) of Inl e \<Rightarrow> False | Inr v \<Rightarrow> 0 < v)"

text \<open>
  A candidate for which the credit call is issued: it is not older than the order, it is a
  sweep to the account, and lines 91-105 go through. \<open>creditInput\<close> is then the argument
  of the call.
\<close>

definition creditable :: "'l app_context \<Rightarrow> Order \<Rightarrow> string \<Rightarrow> EtherscanTransaction \<Rightarrow> bool" where
  "creditable ctx order oid tx =
     (\<not> beforeOrder ctx order tx \<and> sweepToAccount ctx tx \<and> \<not> isl (prepareDeposit ctx tx oid))"

definition creditInput :: "'l app_context \<Rightarrow> string \<Rightarrow> EtherscanTransaction \<Rightarrow> deposit_input" where
  "creditInput ctx oid tx = snd (projr (prepareDeposit ctx tx oid))"

text \<open>
  Settlement and credit cannot fail for a transaction: lines 91-105 go through and the
  credit call returns an answer whatever the state of the ledger.
\<close>

definition creditSucceeds :: "'l app_context \<Rightarrow> string \<Rightarrow> EtherscanTransaction \<Rightarrow> bool" where
  "creditSucceeds ctx oid tx =
     (\<not> isl (prepareDeposit ctx tx oid) \<and>
      (\<forall>l. \<not> isl (fst (maybeInternalCreateDeposit ctx (creditInput ctx oid tx) l))))"

text \<open>
  The mapper of \<open>pMap\<close> writes one line for each transaction it is started on, either
  \<open>Ignoring tx \<dots>\<close> or \<open>Scanning tx \<dots>\<close>, before it awaits anything.
  \<open>candidatesLogged\<close> reads the hashes of these lines off a log: the transactions that
  were processed, in the order in which their mappers were started.
\<close>

definition candidateOfLog :: "log_entry \<Rightarrow> string option" where
  "candidateOfLog entry =
     (case entry of
        Log lv obj fmt args \<Rightarrow>
          if fmt = ''Scanning tx %s''
             \<or> fmt = ''Ignoring tx %s that happened before order %s was created''
          then (case args of S h # rest \<Rightarrow> Some h | _ \<Rightarrow> None)
          else None)"

definition candidatesLogged :: "log_entry list \<Rightarrow> string list" where
  "candidatesLogged entries = List.map_filter candidateOfLog entries"

subsection \<open>The selection as the specification words it\<close>

text \<open>
  Section 4.2 of the specification: drop a record whose \<open>to\<close> is absent, whose \<open>to\<close> is
  not the account address (case-folded), whose parsed value is not positive, or whose
  timestamp is before the creation of the order; then keep the first ten survivors.
\<close>

definition spec_eligible :: "'l app_context \<Rightarrow> Order \<Rightarrow> EtherscanTransaction \<Rightarrow> bool" where
  "spec_eligible ctx order tx =
     (to tx \<noteq> [] \<and> toLowerCase (to tx) = toLowerCase (account ctx) \<and> valuePositive ctx tx
      \<and> \<not> beforeOrder ctx order tx)"

definition spec_select ::
  "'l app_context \<Rightarrow> Order \<Rightarrow> EtherscanTransaction list \<Rightarrow> EtherscanTransaction list" where
  "spec_select ctx order records = take 10 (filter (spec_eligible ctx order) records)"

section \<open>A concrete instance\<close>

text \<open>
  Concrete collaborators, on which the functions above can be run. They read and write
  plain decimal numerals, which is what the feed contains.
\<close>

definition digit_val :: "char \<Rightarrow> int option" where
  "digit_val c = map_of (zip ''0123456789'' [0, 1, 2, 3, 4, 5, 6, 7, 8, 9]) c"

fun int_of_digits :: "string \<Rightarrow> int \<Rightarrow> int option" where
  "int_of_digits [] acc = Some acc"
| "int_of_digits (c # cs) acc =
     (case digit_val c of None \<Rightarrow> None | Some d \<Rightarrow> int_of_digits cs (10 * acc + d))"

text \<open>An unsigned decimal numeral, and one with an optional minus sign.\<close>

definition nat_of_dec :: "string \<Rightarrow> int option" where
  "nat_of_dec s = (if s = [] then None else int_of_digits s 0)"

definition int_of_dec :: "string \<Rightarrow> int option" where
  "int_of_dec s =
     (case s of
        [] \<Rightarrow> None
      | c # ds \<Rightarrow> if c = CHR ''-'' then map_option uminus (nat_of_dec ds) else nat_of_dec s)"

text \<open>
  Modelled from the spec: the \<open>ns\<close> wrapper of \<open>@sideshift/shared\<close> is not among the
  sources. The specification says that the total is computed "in base units, using
  arbitrary-precision decimal/integer arithmetic (no binary floating point)" on the
  feed's "non-negative integer string"s: \<open>ns_sum_exact\<close> and \<open>ns_times_exact\<close> add and
  multiply unsigned decimal numerals exactly. On any other string they report an error.
\<close>

definition ns_sum_exact :: "string \<Rightarrow> string \<Rightarrow> error + string" where
  "ns_sum_exact a b =
     (case (nat_of_dec a, nat_of_dec b) of
        (Some x, Some y) \<Rightarrow> Inr (dec_digits (x + y))
      | _ \<Rightarrow> Inl (Error ''Not a number''))"

definition ns_times_exact :: "string \<Rightarrow> string \<Rightarrow> error + string" where
  "ns_times_exact a b =
     (case (nat_of_dec a, nat_of_dec b) of
        (Some x, Some y) \<Rightarrow> Inr (dec_digits (x * y))
      | _ \<Rightarrow> Inl (Error ''Not a number''))"

text \<open>\<open>ethers.BigNumber.from\<close> on decimal numerals.\<close>

definition BigNumber_from_dec :: "string \<Rightarrow> error + int" where
  "BigNumber_from_dec s =
     (case int_of_dec s of None \<Rightarrow> Inl (Error ''invalid BigNumber string'') | Some i \<Rightarrow> Inr i)"

text \<open>
  \<open>ethers.utils.formatEther\<close>, that is \<open>formatUnits(wei, 18)\<close>: the whole part, a point, and
  the eighteen-digit fraction without its trailing zeros (one digit is kept).
\<close>

definition stripZeros :: "string \<Rightarrow> string" where
  "stripZeros s =
     (let t = rev (dropWhile (\<lambda>c. c = CHR ''0'') (rev s)) in if t = [] then ''0'' else t)"

definition formatEther_dec :: "string \<Rightarrow> error + string" where
  "formatEther_dec s =
     (case int_of_dec s of
        None \<Rightarrow> Inl (Error ''invalid BigNumber string'')
      | Some i \<Rightarrow>
          (let n = \<bar>i\<bar>;
               fraction = dec_digits (n mod 10 ^ 18);
               padded = replicate (18 - length fraction) CHR ''0'' @ fraction
           in Inr ((if i < 0 then ''-'' else []) @ dec_digits (n div 10 ^ 18) @ ''.''
                     @ stripZeros padded)))"

text \<open>\<open>Number(s)\<close> on decimal numerals; the empty string is 0, anything else \<open>NaN\<close>.\<close>

definition js_Number_dec :: "string \<Rightarrow> int option" where
  "js_Number_dec s = (if s = [] then Some 0 else nat_of_dec s)"

text \<open>
  Modelled from the spec: the ledger behind \<open>maybeInternalCreateDeposit\<close> is an external
  service, "a single idempotent create deposit credit call keyed by a caller-supplied
  unique id, returning whether a new credit was created or one already existed". Its
  state is the list of the unique ids credited so far.
\<close>

definition idempotentLedger ::
  "deposit_input \<Rightarrow> string list \<Rightarrow> (error + bool) \<times> string list" where
  "idempotentLedger c l =
     (if uniqueId c \<in> set l then (Inr False, l) else (Inr True, l @ [uniqueId c]))"

text \<open>
  Modelled from the spec: \<open>getEthereumNativeDepositUniqueId\<close> of \<open>./shared\<close> is not among
  the sources; the key is a "deterministic function of (asset/method identifier,
  transaction hash)". Here: the asset, a colon, the hash.
\<close>

definition exampleUniqueId :: "nativeMethod \<Rightarrow> string \<Rightarrow> string" where
  "exampleUniqueId m h = asset m @ '':'' @ h"

text \<open>
  One order, created at second 1000, with a deposit address; the account is \<open>0xAcC0\<close>.
  The context is a function of what \<open>axios.get\<close> answers. Its p-map starts no mapper
  after a failure.
\<close>

definition exampleOrder :: Order where
  "exampleOrder =
     \<lparr>order_id = ''order-1'', createdAt = 1000000, depositAddress = Some ''0xd3p0''\<rparr>"

definition exampleContext :: "(error + response) \<Rightarrow> string list app_context" where
  "exampleContext answer =
     \<lparr>account = ''0xAcC0'', etherscanApiKey = ''KEY'', nativeMethod = \<lparr>asset = ''ETH''\<rparr>,
      findOneBy = (\<lambda>i. if i = ''order-1'' then Inr (Some exampleOrder) else Inr None),
      axios_get = (\<lambda>url. answer),
      BigNumber_from = BigNumber_from_dec,
      formatEther = formatEther_dec,
      ns_sum = ns_sum_exact,
      ns_times = ns_times_exact,
      js_Number = js_Number_dec,
      maybeInternalCreateDeposit = idempotentLedger,
      getEthereumNativeDepositUniqueId = exampleUniqueId,
      pMap_startsLate = (\<lambda>i. False),
      pMap_firstRejected = 0\<rparr>"

definition emptyWorld :: "string list world" where
  "emptyWorld = \<lparr>ledger = [], calls = [], logs = []\<rparr>"

text \<open>A transaction and the same as a row of the feed: hash, to, value, second, gas, gas price.\<close>

definition exampleTx ::
  "string \<Rightarrow> string \<Rightarrow> string \<Rightarrow> string \<Rightarrow> string \<Rightarrow> string \<Rightarrow> EtherscanTransaction" where
  "exampleTx h t v ts g gp =
     \<lparr>hash = h, from' = ''0xd3p0'', to = t, value' = v, timeStamp = ts, gasPrice = gp, gas = g,
      gasUsed = ''21000''\<rparr>"

definition exampleRow :: "string \<Rightarrow> string \<Rightarrow> string \<Rightarrow> string \<Rightarrow> string \<Rightarrow> string \<Rightarrow> json" where
  "exampleRow h t v ts g gp =
     JObj [(''blockNumber'', JStr ''17''), (''hash'', JStr h), (''from'', JStr ''0xd3p0''),
           (''to'', JStr t), (''value'', JStr v), (''timeStamp'', JStr ts),
           (''gasPrice'', JStr gp), (''gas'', JStr g), (''gasUsed'', JStr ''21000'')]"

definition feedOf :: "json list \<Rightarrow> error + response" where
  "feedOf rows = Inr \<lparr>status = JStr ''1'', result = JArr rows\<rparr>"

text \<open>The provider answers with an error; the transport fails.\<close>

definition rateLimited :: "error + response" where
  "rateLimited = Inr \<lparr>status = JStr ''0'', result = JStr ''Max rate limit reached''\<rparr>"

definition offline :: "error + response" where
  "offline = Inl (AxiosError ''timeout of 1000ms exceeded'')"

text \<open>
  Ten transfers with a value to another address, all after the creation of the order,
  followed by one sweep to the account.
\<close>

definition crowdedFeed :: "json list" where
  "crowdedFeed =
     map (\<lambda>h. exampleRow h ''0x0ther'' ''5'' ''2000'' ''21000'' ''2'')
       [''0xa0'', ''0xa1'', ''0xa2'', ''0xa3'', ''0xa4'', ''0xa5'', ''0xa6'', ''0xa7'', ''0xa8'',
        ''0xa9'']
     @ [exampleRow ''0xb0'' ''0xacc0'' ''500'' ''1300'' ''21000'' ''2'']"

text \<open>Eleven sweeps to the account, all with a value and after the creation of the order.\<close>

definition elevenSweeps :: "string list" where
  "elevenSweeps =
     [''0xc0'', ''0xc1'', ''0xc2'', ''0xc3'', ''0xc4'', ''0xc5'', ''0xc6'', ''0xc7'', ''0xc8'',
      ''0xc9'', ''0xca'']"

definition sweepFeed :: "json list" where
  "sweepFeed = map (\<lambda>h. exampleRow h ''0xACC0'' ''500'' ''1300'' ''21000'' ''2'') elevenSweeps"

text \<open>A sweep without a gas price, followed by a sweep with one.\<close>

definition mixedFeed :: "json list" where
  "mixedFeed =
     [exampleRow ''0xd0'' ''0xacc0'' ''800'' ''1400'' ''21000'' [],
      exampleRow ''0xd1'' ''0xacc0'' ''500'' ''1300'' ''21000'' ''2'']"

text \<open>
  The scenario of section 8 of the specification: a transfer before the order was created,
  one without a value, one to another address, and one sweep of 500 with gas 21000 at
  price 2.
\<close>

definition scenarioFeed :: "json list" where
  "scenarioFeed =
     [exampleRow ''0x90'' ''0xacc0'' ''7'' ''900'' ''21000'' ''2'',
      exampleRow ''0x91'' ''0xacc0'' ''0'' ''1100'' ''21000'' ''2'',
      exampleRow ''0x92'' ''0x0ther'' ''9'' ''1200'' ''21000'' ''2'',
      exampleRow ''0x93'' ''0xACC0'' ''500'' ''1300'' ''21000'' ''2'']"

text \<open>
  A transfer to another address, a sweep, eight more transfers to another address, and a
  second sweep in eleventh place; all have a value and are after the creation of the order.
\<close>

definition lateSweepFeed :: "json list" where
  "lateSweepFeed =
     [exampleRow ''0xa0'' ''0x0ther'' ''5'' ''2000'' ''21000'' ''2'',
      exampleRow ''0xb1'' ''0xacc0'' ''500'' ''1900'' ''21000'' ''2'']
     @ map (\<lambda>h. exampleRow h ''0x0ther'' ''5'' ''1800'' ''21000'' ''2'')
         [''0xa2'', ''0xa3'', ''0xa4'', ''0xa5'', ''0xa6'', ''0xa7'', ''0xa8'', ''0xa9'']
     @ [exampleRow ''0xb2'' ''0xacc0'' ''500'' ''1300'' ''21000'' ''2'']"

text \<open>A sweep with a gas price, followed by a sweep whose gas price is the empty string.\<close>

definition unpricedFeed :: "json list" where
  "unpricedFeed =
     [exampleRow ''0xe1'' ''0xacc0'' ''500'' ''1500'' ''21000'' ''2'',
      exampleRow ''0xe2'' ''0xacc0'' ''800'' ''1400'' ''21000'' []]"

text \<open>The bindings of a row that has no \<open>gasPrice\<close> at all.\<close>

definition bindingsWithoutGasPrice :: "(string \<times> json) list" where
  "bindingsWithoutGasPrice =
     [(''hash'', JStr ''0xe3''), (''from'', JStr ''0xd3p0''), (''to'', JStr ''0xacc0''),
      (''value'', JStr ''800''), (''timeStamp'', JStr ''1400''), (''gas'', JStr ''21000''),
      (''gasUsed'', JStr ''21000'')]"

section \<open>Lemmas\<close>

subsection \<open>Credit calls and processed candidates of one mapper\<close>

lemma calls_logger: "calls (logger lv obj fmt args s) = calls s"
  by (simp add: logger_def)

lemma scanTxId_calls:
  "calls (snd (scanTxId ctx tx oid s)) =
     calls s @ (if sweepToAccount ctx tx \<and> \<not> isl (prepareDeposit ctx tx oid)
                then [creditInput ctx oid tx] else [])"
  by (auto simp: scanTxId_def sweepToAccount_def creditInput_def logger_def Let_def
      split: sum.splits prod.splits)

lemma scanCandidate_calls:
  "calls (snd (scanCandidate ctx order oid tx s)) =
     calls s @ (if creditable ctx order oid tx then [creditInput ctx oid tx] else [])"
  using scanTxId_calls [of ctx tx oid "logger LInfo None ''Scanning tx %s'' [S (hash tx)] s"]
  by (auto simp: scanCandidate_def creditable_def logger_def split: sum.splits prod.splits)

lemma candidatesLogged_append:
  "candidatesLogged (xs @ ys) = candidatesLogged xs @ candidatesLogged ys"
  by (simp add: candidatesLogged_def map_filter_def)

lemma candidatesLogged_logger:
  "candidatesLogged (logs (logger lv obj fmt args s)) =
     candidatesLogged (logs s) @ candidatesLogged [Log lv obj fmt args]"
  by (simp add: logger_def candidatesLogged_append)

lemma scanTxId_logged:
  "candidatesLogged (logs (snd (scanTxId ctx tx oid s))) = candidatesLogged (logs s)"
  by (auto simp: scanTxId_def logger_def Let_def candidatesLogged_def map_filter_def
      candidateOfLog_def split: sum.splits prod.splits)

lemma scanCandidate_logged:
  "candidatesLogged (logs (snd (scanCandidate ctx order oid tx s))) =
     candidatesLogged (logs s) @ [hash tx]"
proof (cases "beforeOrder ctx order tx")
  case True
  then show ?thesis
    by (simp add: scanCandidate_def candidatesLogged_logger)
      (simp add: candidatesLogged_def map_filter_def candidateOfLog_def)
next
  case False
  have "candidatesLogged (logs (snd (scanCandidate ctx order oid tx s))) =
          candidatesLogged (logs (snd (scanTxId ctx tx oid
            (logger LInfo None ''Scanning tx %s'' [S (hash tx)] s))))"
    using False by (simp add: scanCandidate_def split: prod.splits sum.splits)
  then show ?thesis
    by (simp add: scanTxId_logged candidatesLogged_logger)
      (simp add: candidatesLogged_def map_filter_def candidateOfLog_def)
qed

subsection \<open>A mapper that fails, a mapper that cannot fail\<close>

lemma scanCandidate_fails:
  assumes "\<not> beforeOrder ctx order tx" and "sweepToAccount ctx tx"
    and "isl (prepareDeposit ctx tx oid) \<or>
         (\<forall>l. isl (fst (maybeInternalCreateDeposit ctx (creditInput ctx oid tx) l)))"
  shows "isl (fst (scanCandidate ctx order oid tx s))"
proof (cases "prepareDeposit ctx tx oid")
  case (Inl e)
  with assms(1,2) show ?thesis
    by (simp add: scanCandidate_def scanTxId_def sweepToAccount_def)
next
  case (Inr p)
  obtain ve inp where p: "p = (ve, inp)" by (cases p)
  have inp: "creditInput ctx oid tx = inp"
    using Inr p by (simp add: creditInput_def)
  have "isl (fst (maybeInternalCreateDeposit ctx inp
          (ledger (logger LInfo None ''Scanning tx %s'' [S (hash tx)] s))))"
    using assms(3) Inr inp by simp
  with assms(1,2) Inr p show ?thesis
    by (auto simp: scanCandidate_def scanTxId_def sweepToAccount_def Let_def isl_def
        split: prod.splits sum.splits)
qed

lemma scanCandidate_succeeds:
  assumes "\<not> beforeOrder ctx order tx \<and> sweepToAccount ctx tx \<longrightarrow> creditSucceeds ctx oid tx"
  shows "\<not> isl (fst (scanCandidate ctx order oid tx s))"
proof (cases "\<not> beforeOrder ctx order tx \<and> sweepToAccount ctx tx")
  case False
  then show ?thesis
    by (auto simp: scanCandidate_def scanTxId_def sweepToAccount_def split: prod.splits)
next
  case True
  with assms have ok: "creditSucceeds ctx oid tx" by simp
  then obtain ve inp where p: "prepareDeposit ctx tx oid = Inr (ve, inp)"
    by (cases "prepareDeposit ctx tx oid") (auto simp: creditSucceeds_def)
  then have inp: "creditInput ctx oid tx = inp" by (simp add: creditInput_def)
  have "\<not> isl (fst (maybeInternalCreateDeposit ctx inp
          (ledger (logger LInfo None ''Scanning tx %s'' [S (hash tx)] s))))"
    using ok inp by (simp add: creditSucceeds_def)
  with True p show ?thesis
    by (auto simp: scanCandidate_def scanTxId_def sweepToAccount_def Let_def isl_def
        split: prod.splits sum.splits)
qed

lemma creditInput_fields:
  assumes "\<not> isl (prepareDeposit ctx tx oid)"
  shows "txid (creditInput ctx oid tx) = hash tx \<and> orderId (creditInput ctx oid tx) = oid"
  using assms
  by (auto simp: creditInput_def prepareDeposit_def split: if_splits sum.splits)

subsection \<open>pMap\<close>

lemma pMap_from_errors_kept:
  "errs \<noteq> [] \<Longrightarrow> fst (fst (pMap_from late f i xs errs ys s)) \<noteq> []"
  by (induction xs arbitrary: i errs ys s) (auto split: prod.splits sum.splits)

lemma pMap_from_rejects:
  assumes "x \<in> set xs" and "\<And>s. isl (fst (f x s))"
  shows "fst (fst (pMap_from late f i xs errs ys s)) \<noteq> []"
  using assms(1)
proof (induction xs arbitrary: i errs ys s)
  case Nil
  then show ?case by simp
next
  case (Cons a xs)
  show ?case
  proof (cases "errs \<noteq> [] \<and> \<not> late i")
    case True
    then show ?thesis by (simp add: pMap_from_errors_kept)
  next
    case False
    note started = this
    obtain r s1 where r: "f a s = (r, s1)" by (cases "f a s")
    show ?thesis
    proof (cases r)
      case (Inl e)
      with started r show ?thesis by (simp add: pMap_from_errors_kept)
    next
      case (Inr y)
      with assms(2) [of s] r have "x \<noteq> a" by auto
      with Cons.prems have "x \<in> set xs" by simp
      from Cons.IH [OF this] started r Inr show ?thesis by simp
    qed
  qed
qed

lemma pMap_from_resolves:
  assumes "\<And>x s. x \<in> set xs \<Longrightarrow> \<not> isl (fst (f x s))"
  shows "fst (fst (pMap_from late f i xs [] ys s)) = []"
  using assms
proof (induction xs arbitrary: i ys s)
  case Nil
  then show ?case by simp
next
  case (Cons a xs)
  obtain r s1 where r: "f a s = (r, s1)" by (cases "f a s")
  with Cons.prems [of a s] obtain y where y: "r = Inr y" by (cases r) auto
  have "fst (fst (pMap_from late f (Suc i) xs [] (ys @ [y]) s1)) = []"
    by (rule Cons.IH) (simp add: Cons.prems)
  with r y show ?case by simp
qed

lemma pMap_from_started:
  "\<exists>zs. set zs \<subseteq> set txs \<and> length zs \<le> length txs \<and>
     calls (snd (pMap_from late (scanCandidate ctx order oid) i txs errs ys s)) =
       calls s @ map (creditInput ctx oid) (filter (creditable ctx order oid) zs) \<and>
     candidatesLogged (logs (snd (pMap_from late (scanCandidate ctx order oid) i txs errs ys s))) =
       candidatesLogged (logs s) @ map hash zs"
proof (induction txs arbitrary: i errs ys s)
  case Nil
  show ?case by simp
next
  case (Cons tx txs)
  show ?case
  proof (cases "errs \<noteq> [] \<and> \<not> late i")
    case True
    from Cons.IH [of "Suc i" errs ys s] obtain zs where
      "set zs \<subseteq> set txs" "length zs \<le> length txs"
      "calls (snd (pMap_from late (scanCandidate ctx order oid) (Suc i) txs errs ys s)) =
         calls s @ map (creditInput ctx oid) (filter (creditable ctx order oid) zs)"
      "candidatesLogged (logs (snd (pMap_from late (scanCandidate ctx order oid) (Suc i) txs
         errs ys s))) = candidatesLogged (logs s) @ map hash zs"
      by blast
    with True show ?thesis
      by (intro exI [of _ zs]) auto
  next
    case False
    obtain r s1 where r: "scanCandidate ctx order oid tx s = (r, s1)"
      by (cases "scanCandidate ctx order oid tx s")
    have c1: "calls s1 =
        calls s @ (if creditable ctx order oid tx then [creditInput ctx oid tx] else [])"
      using scanCandidate_calls [of ctx order oid tx s] r by simp
    have l1: "candidatesLogged (logs s1) = candidatesLogged (logs s) @ [hash tx]"
      using scanCandidate_logged [of ctx order oid tx s] r by simp
    obtain errs' ys' where next_step:
      "pMap_from late (scanCandidate ctx order oid) i (tx # txs) errs ys s =
         pMap_from late (scanCandidate ctx order oid) (Suc i) txs errs' ys' s1"
      using False r by (cases r) auto
    from Cons.IH [of "Suc i" errs' ys' s1] obtain zs where
      zs: "set zs \<subseteq> set txs" "length zs \<le> length txs"
      "calls (snd (pMap_from late (scanCandidate ctx order oid) (Suc i) txs errs' ys' s1)) =
         calls s1 @ map (creditInput ctx oid) (filter (creditable ctx order oid) zs)"
      "candidatesLogged (logs (snd (pMap_from late (scanCandidate ctx order oid) (Suc i) txs
         errs' ys' s1))) = candidatesLogged (logs s1) @ map hash zs"
      by blast
    show ?thesis
      unfolding next_step using zs c1 l1 by (intro exI [of _ "tx # zs"]) auto
  qed
qed

lemma pMap_from_all:
  assumes "fst (fst (pMap_from late (scanCandidate ctx order oid) i txs errs ys s)) = []"
  shows "calls (snd (pMap_from late (scanCandidate ctx order oid) i txs errs ys s)) =
           calls s @ map (creditInput ctx oid) (filter (creditable ctx order oid) txs) \<and>
         candidatesLogged (logs (snd (pMap_from late (scanCandidate ctx order oid) i txs errs ys s))) =
           candidatesLogged (logs s) @ map hash txs"
  using assms
proof (induction txs arbitrary: i errs ys s)
  case Nil
  show ?case by simp
next
  case (Cons tx txs)
  have errs: "errs = []"
  proof (rule ccontr)
    assume "errs \<noteq> []"
    then have "fst (fst (pMap_from late (scanCandidate ctx order oid) i (tx # txs) errs ys s)) \<noteq> []"
      by (rule pMap_from_errors_kept)
    then show False using Cons.prems by (rule notE)
  qed
  obtain r s1 where r: "scanCandidate ctx order oid tx s = (r, s1)"
    by (cases "scanCandidate ctx order oid tx s")
  have c1: "calls s1 =
      calls s @ (if creditable ctx order oid tx then [creditInput ctx oid tx] else [])"
    using scanCandidate_calls [of ctx order oid tx s] r by simp
  have l1: "candidatesLogged (logs s1) = candidatesLogged (logs s) @ [hash tx]"
    using scanCandidate_logged [of ctx order oid tx s] r by simp
  show ?case
  proof (cases r)
    case (Inl e)
    with errs r have "pMap_from late (scanCandidate ctx order oid) i (tx # txs) errs ys s =
        pMap_from late (scanCandidate ctx order oid) (Suc i) txs [e] ys s1"
      by simp
    with Cons.prems
    have "fst (fst (pMap_from late (scanCandidate ctx order oid) (Suc i) txs [e] ys s1)) = []"
      by simp
    moreover
    have "fst (fst (pMap_from late (scanCandidate ctx order oid) (Suc i) txs [e] ys s1)) \<noteq> []"
      by (rule pMap_from_errors_kept) simp
    ultimately show ?thesis by (rule notE [rotated])
  next
    case (Inr y)
    with errs r have next_step:
      "pMap_from late (scanCandidate ctx order oid) i (tx # txs) errs ys s =
        pMap_from late (scanCandidate ctx order oid) (Suc i) txs [] (ys @ [y]) s1"
      by simp
    with Cons.prems
    have "fst (fst (pMap_from late (scanCandidate ctx order oid) (Suc i) txs [] (ys @ [y]) s1)) = []"
      by simp
    from Cons.IH [OF this] c1 l1 show ?thesis
      unfolding next_step by simp
  qed
qed

lemma pMap_isl:
  "isl (fst (pMap late pick f xs s)) = (fst (fst (pMap_from late f 0 xs [] [] s)) \<noteq> [])"
  by (simp add: pMap_def split: prod.splits)

lemma pMap_snd:
  "snd (pMap late pick f xs s) = snd (pMap_from late f 0 xs [] [] s)"
  by (simp add: pMap_def split: prod.splits)

subsection \<open>The filter of line 188\<close>

lemma filterPositive_filter:
  "filterPositive ctx txs = Inr ps \<Longrightarrow> ps = filter (valuePositive ctx) txs"
  by (induction txs arbitrary: ps) (auto simp: valuePositive_def split: sum.splits)

lemma filterPositive_Inr:
  "\<forall>tx \<in> set txs. \<not> isl (BigNumber_from ctx (value' tx))
     \<Longrightarrow> filterPositive ctx txs = Inr (filter (valuePositive ctx) txs)"
  by (induction txs) (auto simp: valuePositive_def split: sum.splits)

subsection \<open>The handler on its main path\<close>

lemma scanOrder_snd:
  assumes "findOneBy ctx oid = Inr (Some order)" and "depositAddress order = Some address"
    and "getEtherScanTxListForAddress ctx address = Inr fetched"
    and "filterPositive ctx fetched = Inr positive"
  shows "snd (scanOrder ctx oid s) =
           snd (pMap_from (pMap_startsLate ctx) (scanCandidate ctx order oid) 0 (take 10 positive)
                  [] []
                  (logger LInfo None ''Found %s transactions for order %s''
                     [N (length (take 10 positive)), S oid]
                     (logger LInfo None ''Processing queued task to look at order %s for deposits''
                        [S oid] s)))"
  by (simp add: scanOrder_def assms Let_def pMap_def split: prod.splits sum.splits)

lemma scanOrder_isl:
  assumes "findOneBy ctx oid = Inr (Some order)" and "depositAddress order = Some address"
    and "getEtherScanTxListForAddress ctx address = Inr fetched"
    and "filterPositive ctx fetched = Inr positive"
  shows "isl (fst (scanOrder ctx oid s)) =
           (fst (fst (pMap_from (pMap_startsLate ctx) (scanCandidate ctx order oid) 0
                  (take 10 positive) [] []
                  (logger LInfo None ''Found %s transactions for order %s''
                     [N (length (take 10 positive)), S oid]
                     (logger LInfo None ''Processing queued task to look at order %s for deposits''
                        [S oid] s)))) \<noteq> [])"
  by (simp add: scanOrder_def assms Let_def pMap_def split: prod.splits sum.splits)

lemma scanOrder_started:
  assumes "findOneBy ctx oid = Inr (Some order)" and "depositAddress order = Some address"
    and "getEtherScanTxListForAddress ctx address = Inr fetched"
    and "filterPositive ctx fetched = Inr positive"
  shows "\<exists>zs. set zs \<subseteq> set (take 10 (filter (valuePositive ctx) fetched)) \<and> length zs \<le> 10 \<and>
           calls (snd (scanOrder ctx oid s)) =
             calls s @ map (creditInput ctx oid) (filter (creditable ctx order oid) zs) \<and>
           candidatesLogged (logs (snd (scanOrder ctx oid s))) =
             candidatesLogged (logs s) @ map hash zs"
proof -
  let ?ten = "take 10 (filter (valuePositive ctx) fetched)"
  let ?s1 = "logger LInfo None ''Found %s transactions for order %s'' [N (length ?ten), S oid]
      (logger LInfo None ''Processing queued task to look at order %s for deposits'' [S oid] s)"
  have ten: "take 10 positive = ?ten"
    using filterPositive_filter [OF assms(4)] by simp
  have start: "calls ?s1 = calls s" "candidatesLogged (logs ?s1) = candidatesLogged (logs s)"
    by (simp_all add: calls_logger candidatesLogged_logger)
      (simp add: candidatesLogged_def map_filter_def candidateOfLog_def)
  from pMap_from_started [of ?ten "pMap_startsLate ctx" ctx order oid 0 "[]" "[]" ?s1]
  obtain zs where zs: "set zs \<subseteq> set ?ten" "length zs \<le> length ?ten"
    "calls (snd (pMap_from (pMap_startsLate ctx) (scanCandidate ctx order oid) 0 ?ten [] [] ?s1)) =
       calls ?s1 @ map (creditInput ctx oid) (filter (creditable ctx order oid) zs)"
    "candidatesLogged (logs (snd (pMap_from (pMap_startsLate ctx) (scanCandidate ctx order oid) 0
       ?ten [] [] ?s1))) = candidatesLogged (logs ?s1) @ map hash zs"
    by blast
  from zs(2) have "length zs \<le> 10" by simp
  with zs show ?thesis
    unfolding scanOrder_snd [OF assms] ten start by blast
qed

lemma scanOrder_resolved:
  assumes "findOneBy ctx oid = Inr (Some order)" and "depositAddress order = Some address"
    and "getEtherScanTxListForAddress ctx address = Inr fetched"
    and "filterPositive ctx fetched = Inr positive"
    and "\<not> isl (fst (scanOrder ctx oid s))"
  shows "calls (snd (scanOrder ctx oid s)) =
           calls s @ map (creditInput ctx oid)
             (filter (creditable ctx order oid) (take 10 (filter (valuePositive ctx) fetched))) \<and>
         candidatesLogged (logs (snd (scanOrder ctx oid s))) =
           candidatesLogged (logs s) @ map hash (take 10 (filter (valuePositive ctx) fetched))"
proof -
  let ?ten = "take 10 (filter (valuePositive ctx) fetched)"
  let ?s1 = "logger LInfo None ''Found %s transactions for order %s'' [N (length ?ten), S oid]
      (logger LInfo None ''Processing queued task to look at order %s for deposits'' [S oid] s)"
  have ten: "take 10 positive = ?ten"
    using filterPositive_filter [OF assms(4)] by simp
  have start: "calls ?s1 = calls s" "candidatesLogged (logs ?s1) = candidatesLogged (logs s)"
    by (simp_all add: calls_logger candidatesLogged_logger)
      (simp add: candidatesLogged_def map_filter_def candidateOfLog_def)
  have "fst (fst (pMap_from (pMap_startsLate ctx) (scanCandidate ctx order oid) 0 ?ten [] [] ?s1)) = []"
    using assms(5) unfolding scanOrder_isl [OF assms(1-4)] ten by simp
  from pMap_from_all [OF this] show ?thesis
    unfolding scanOrder_snd [OF assms(1-4)] ten start .
qed

lemma scanOrder_rejects:
  assumes "findOneBy ctx oid = Inr (Some order)" and "depositAddress order = Some address"
    and "getEtherScanTxListForAddress ctx address = Inr fetched"
    and "filterPositive ctx fetched = Inr positive"
    and "failing \<in> set (take 10 (filter (valuePositive ctx) fetched))"
    and "\<And>s. isl (fst (scanCandidate ctx order oid failing s))"
  shows "isl (fst (scanOrder ctx oid s))"
proof -
  have ten: "take 10 positive = take 10 (filter (valuePositive ctx) fetched)"
    using filterPositive_filter [OF assms(4)] by simp
  show ?thesis
    unfolding scanOrder_isl [OF assms(1-4)] ten
    using assms(5,6) by (rule pMap_from_rejects)
qed

lemma scanOrder_completes:
  assumes "findOneBy ctx oid = Inr (Some order)" and "depositAddress order = Some address"
    and "getEtherScanTxListForAddress ctx address = Inr fetched"
    and "filterPositive ctx fetched = Inr positive"
    and "\<And>tx s. tx \<in> set (take 10 (filter (valuePositive ctx) fetched))
           \<Longrightarrow> \<not> isl (fst (scanCandidate ctx order oid tx s))"
  shows "\<not> isl (fst (scanOrder ctx oid s))"
proof -
  have ten: "take 10 positive = take 10 (filter (valuePositive ctx) fetched)"
    using filterPositive_filter [OF assms(4)] by simp
  show ?thesis
    unfolding scanOrder_isl [OF assms(1-4)] ten
    using assms(5) by (simp add: pMap_from_resolves)
qed

lemma scanOrder_off_path:
  assumes "\<not> (\<exists>order address fetched positive.
              findOneBy ctx oid = Inr (Some order) \<and> depositAddress order = Some address \<and>
              getEtherScanTxListForAddress ctx address = Inr fetched \<and>
              filterPositive ctx fetched = Inr positive)"
  shows "calls (snd (scanOrder ctx oid s)) = calls s \<and>
         candidatesLogged (logs (snd (scanOrder ctx oid s))) = candidatesLogged (logs s)"
  using assms
  by (auto simp: scanOrder_def Let_def logger_def candidatesLogged_def map_filter_def
      candidateOfLog_def split: sum.splits option.splits)

subsection \<open>Decimal numerals\<close>

lemma digit_val_nth:
  assumes "0 \<le> d" and "d < 10"
  shows "digit_val (''0123456789'' ! nat d) = Some d"
proof -
  from assms have "d = 0 \<or> d = 1 \<or> d = 2 \<or> d = 3 \<or> d = 4 \<or> d = 5 \<or> d = 6 \<or> d = 7
      \<or> d = 8 \<or> d = 9"
    by arith
  then show ?thesis
    by (auto simp: digit_val_def)
qed

lemma digit_val_nonneg: "digit_val c = Some d \<Longrightarrow> 0 \<le> d"
  by (auto simp: digit_val_def split: if_splits)

lemma int_of_digits_nonneg: "int_of_digits s a = Some v \<Longrightarrow> 0 \<le> a \<Longrightarrow> 0 \<le> v"
proof (induction s arbitrary: a)
  case Nil
  then show ?case by simp
next
  case (Cons c s)
  from Cons.prems(1) obtain d where d: "digit_val c = Some d"
    and rest: "int_of_digits s (10 * a + d) = Some v"
    by (auto split: option.splits)
  from digit_val_nonneg [OF d] Cons.prems(2) have "0 \<le> 10 * a + d" by simp
  from Cons.IH [OF rest this] show ?case .
qed

lemma nat_of_dec_nonneg: "nat_of_dec s = Some v \<Longrightarrow> 0 \<le> v"
  by (auto simp: nat_of_dec_def split: if_splits dest: int_of_digits_nonneg)

lemma int_of_digits_append:
  "int_of_digits (xs @ ys) a =
     (case int_of_digits xs a of None \<Rightarrow> None | Some b \<Rightarrow> int_of_digits ys b)"
  by (induction xs arbitrary: a) (auto split: option.splits)

lemma dec_digits_not_empty: "dec_digits n \<noteq> []"
  by (subst dec_digits.simps) simp

lemma int_of_digits_dec_digits: "0 \<le> n \<Longrightarrow> int_of_digits (dec_digits n) 0 = Some n"
proof (induction n rule: dec_digits.induct)
  case (1 n)
  show ?case
  proof (cases "n < 10")
    case True
    with "1.prems" show ?thesis
      by (subst dec_digits.simps) (simp add: digit_val_nth)
  next
    case False
    with "1.prems" have "0 \<le> n div 10" by simp
    from "1.IH" [OF False this]
    have "int_of_digits (dec_digits (n div 10)) 0 = Some (n div 10)" .
    moreover have "digit_val (''0123456789'' ! nat (n mod 10)) = Some (n mod 10)"
      by (rule digit_val_nth) simp_all
    ultimately show ?thesis
      using False by (subst dec_digits.simps) (simp add: int_of_digits_append)
  qed
qed

lemma nat_of_dec_dec_digits: "0 \<le> n \<Longrightarrow> nat_of_dec (dec_digits n) = Some n"
  by (simp add: nat_of_dec_def dec_digits_not_empty int_of_digits_dec_digits)

subsection \<open>The schema\<close>

lemma those_None: "None \<in> set xs \<Longrightarrow> those xs = None"
  by (induction xs) (auto split: option.splits)

lemma zTransaction_without_gasPrice:
  assumes "map_of kvs ''gasPrice'' = None"
  shows "zTransaction (JObj kvs) = None"
proof -
  have "zString (property kvs ''gasPrice'') = None"
    using assms by (simp add: property_def zString_def)
  then have "None \<in> set (map (\<lambda>k. zString (property kvs k))
      [''hash'', ''from'', ''to'', ''value'', ''timeStamp'', ''gasPrice'', ''gas'', ''gasUsed''])"
    by simp
  then have "those (map (\<lambda>k. zString (property kvs k))
      [''hash'', ''from'', ''to'', ''value'', ''timeStamp'', ''gasPrice'', ''gas'', ''gasUsed''])
      = None"
    by (rule those_None)
  then show ?thesis
    by (simp only: zTransaction_def json.case option.case)
qed

lemma parse_without_gasPrice:
  assumes "map_of kvs ''gasPrice'' = None"
  shows "accountTxListResultSchema_parse (JArr (rows @ JObj kvs # rest)) =
           Inl (ZodError ''invalid_type'')"
proof -
  have "None \<in> set (map zTransaction (rows @ JObj kvs # rest))"
    using zTransaction_without_gasPrice [OF assms] by (simp add: image_iff)
  then have "those (map zTransaction (rows @ JObj kvs # rest)) = None"
    by (rule those_None)
  then show ?thesis
    by (simp only: accountTxListResultSchema_parse_def json.case option.case)
qed

subsection \<open>The concrete instance\<close>

lemma exampleLedger_answers:
  "\<not> isl (fst (maybeInternalCreateDeposit (exampleContext answer) c l))"
  by (simp add: exampleContext_def idempotentLedger_def)

section \<open>The claims\<close>

subsection \<open>C1: the amount of the credit call\<close>

text \<open>
  Claim C1 says that the amount passed to the credit call is the total in base units, and
  that the 18-decimal rendering is made for logging only. Line 112 passes \<open>totalAsEther\<close>,
  the rendering of the total, as the amount. For value 1000, gas 21000 and gas price 10 the
  total is \<open>211000\<close> and the amount of the call is \<open>0.000000000000211\<close>.
\<close>

theorem C1_counterexample:
  "settlementTotal (exampleContext offline)
       (exampleTx ''0xf0'' ''0xacc0'' ''1000'' ''1300'' ''21000'' ''10'') = Inr ''211000'' \<and>
   map amount (calls (snd (scanTxId (exampleContext offline)
       (exampleTx ''0xf0'' ''0xacc0'' ''1000'' ''1300'' ''21000'' ''10'') ''order-1'' emptyWorld)))
     = [''0.000000000000211''] \<and>
   map amount (calls (snd (scanTxId (exampleContext offline)
       (exampleTx ''0xf0'' ''0xacc0'' ''1000'' ''1300'' ''21000'' ''10'') ''order-1'' emptyWorld)))
     \<noteq> [''211000'']"
  by code_simp

text \<open>
  C1 as amended: \<open>scanTxId\<close> issues at most one credit call; its amount is
  \<open>formatEther\<close> of the total that line 95 computes, value + gas * gas price in base units.
  The rendering of the bare value is used for the log line only.
\<close>

theorem C1_credited_amount_is_ether_rendering_of_total:
  "(calls (snd (scanTxId ctx tx oid s)) = calls s \<or>
    (\<exists>t te. settlementTotal ctx tx = Inr t \<and> formatEther ctx t = Inr te \<and>
       calls (snd (scanTxId ctx tx oid s)) =
         calls s @ [\<lparr>orderId = oid, txid = hash tx, amount = te,
                     uniqueId = getEthereumNativeDepositUniqueId ctx (nativeMethod ctx) (hash tx)\<rparr>]))
   \<and>
   (logs (snd (scanTxId ctx tx oid s)) = logs s \<or>
    (\<exists>ve. formatEther ctx (value' tx) = Inr ve \<and>
       logs (snd (scanTxId ctx tx oid s)) =
         logs s @ [Log LInfo None
                     (''Stored deposit. '' @ hash tx @ ''. '' @ ve @ '' '' @ asset (nativeMethod ctx)
                        @ '' for order '' @ oid) []]))"
  by (auto simp: scanTxId_def prepareDeposit_def logger_def Let_def
      split: sum.splits prod.splits)

subsection \<open>C2: the order of the rules and the truncation\<close>

text \<open>
  Claim C2 says that the four rules are applied before the list is cut to ten, so that the
  transactions credited are the first ten survivors of all four. The handler applies the
  value rule (line 188), cuts to ten (line 191), and only then applies the timestamp rule
  (line 220) and the two rules on \<open>to\<close> (lines 76-84). Below, ten transfers with a value to
  another address precede a sweep to the account: the specification's selection is that
  sweep, and the handler credits nothing.
\<close>

theorem C2_counterexample:
  "\<not> isl (getEtherScanTxListForAddress (exampleContext (feedOf crowdedFeed)) ''0xd3p0'') \<and>
   map hash (spec_select (exampleContext (feedOf crowdedFeed)) exampleOrder
      (projr (getEtherScanTxListForAddress (exampleContext (feedOf crowdedFeed)) ''0xd3p0'')))
     = [''0xb0''] \<and>
   calls (snd (scanOrder (exampleContext (feedOf crowdedFeed)) ''order-1'' emptyWorld)) = []"
  by code_simp

text \<open>
  C2 as amended: only the value rule comes before the cut to ten. Where no value of the
  feed makes \<open>BigNumber.from\<close> throw and settlement and credit cannot fail for any of the
  ten candidates that are scanned, the task completes and its credit calls are, in feed
  order, those of the transactions among the first ten with a positive value that are not
  older than the order and are sweeps to the account.
\<close>

theorem C2_only_the_value_rule_precedes_truncation:
  assumes "findOneBy ctx oid = Inr (Some order)" and "depositAddress order = Some address"
    and "getEtherScanTxListForAddress ctx address = Inr fetched"
    and "\<forall>tx \<in> set fetched. \<not> isl (BigNumber_from ctx (value' tx))"
    and "\<forall>tx \<in> set (take 10 (filter (valuePositive ctx) fetched)).
           \<not> beforeOrder ctx order tx \<and> sweepToAccount ctx tx \<longrightarrow> creditSucceeds ctx oid tx"
  shows "fst (scanOrder ctx oid s) = Inr () \<and>
         calls (snd (scanOrder ctx oid s)) =
           calls s @ map (creditInput ctx oid)
             (filter (\<lambda>tx. \<not> beforeOrder ctx order tx \<and> sweepToAccount ctx tx)
                (take 10 (filter (valuePositive ctx) fetched)))"
proof -
  let ?ten = "take 10 (filter (valuePositive ctx) fetched)"
  have pos: "filterPositive ctx fetched = Inr (filter (valuePositive ctx) fetched)"
    using assms(4) by (rule filterPositive_Inr)
  have "\<And>tx s. tx \<in> set ?ten \<Longrightarrow> \<not> isl (fst (scanCandidate ctx order oid tx s))"
    using assms(5) by (intro scanCandidate_succeeds) blast
  then have resolved: "\<not> isl (fst (scanOrder ctx oid s))"
    by (rule scanOrder_completes [OF assms(1-3) pos])
  then have completed: "fst (scanOrder ctx oid s) = Inr ()"
    by (cases "fst (scanOrder ctx oid s)") simp_all
  have "\<forall>tx \<in> set ?ten. creditable ctx order oid tx =
      (\<not> beforeOrder ctx order tx \<and> sweepToAccount ctx tx)"
    using assms(5) by (auto simp: creditable_def creditSucceeds_def)
  then have same: "filter (creditable ctx order oid) ?ten =
      filter (\<lambda>tx. \<not> beforeOrder ctx order tx \<and> sweepToAccount ctx tx) ?ten"
    by (intro filter_cong refl) simp
  from scanOrder_resolved [OF assms(1-3) pos resolved] same completed show ?thesis by simp
qed

theorem C2_witness:
  "findOneBy (exampleContext (feedOf lateSweepFeed)) ''order-1'' = Inr (Some exampleOrder) \<and>
   depositAddress exampleOrder = Some ''0xd3p0'' \<and>
   map hash (projr (getEtherScanTxListForAddress (exampleContext (feedOf lateSweepFeed)) ''0xd3p0''))
     = [''0xa0'', ''0xb1'', ''0xa2'', ''0xa3'', ''0xa4'', ''0xa5'', ''0xa6'', ''0xa7'', ''0xa8'',
        ''0xa9'', ''0xb2''] \<and>
   fst (scanOrder (exampleContext (feedOf lateSweepFeed)) ''order-1'' emptyWorld) = Inr () \<and>
   calls (snd (scanOrder (exampleContext (feedOf lateSweepFeed)) ''order-1'' emptyWorld)) =
     [\<lparr>orderId = ''order-1'', txid = ''0xb1'', amount = ''0.0000000000000425'',
       uniqueId = ''ETH:0xb1''\<rparr>]"
proof -
  let ?ctx = "exampleContext (feedOf lateSweepFeed)"
  let ?fetched = "projr (getEtherScanTxListForAddress ?ctx ''0xd3p0'')"
  let ?ten = "take 10 (filter (valuePositive ?ctx) ?fetched)"
  have a: "findOneBy ?ctx ''order-1'' = Inr (Some exampleOrder)"
    by (simp add: exampleContext_def)
  have b: "depositAddress exampleOrder = Some ''0xd3p0''"
    by (simp add: exampleOrder_def)
  have "\<not> isl (getEtherScanTxListForAddress ?ctx ''0xd3p0'')" by code_simp
  then have c: "getEtherScanTxListForAddress ?ctx ''0xd3p0'' = Inr ?fetched" by simp
  have d: "\<forall>tx \<in> set ?fetched. \<not> isl (BigNumber_from ?ctx (value' tx))"
    by code_simp
  have "\<forall>tx \<in> set ?ten. \<not> beforeOrder ?ctx exampleOrder tx \<and> sweepToAccount ?ctx tx
      \<longrightarrow> \<not> isl (prepareDeposit ?ctx tx ''order-1'')"
    by code_simp
  then have e: "\<forall>tx \<in> set ?ten. \<not> beforeOrder ?ctx exampleOrder tx \<and> sweepToAccount ?ctx tx
      \<longrightarrow> creditSucceeds ?ctx ''order-1'' tx"
    by (simp add: creditSucceeds_def exampleLedger_answers)
  have f: "map hash ?fetched = [''0xa0'', ''0xb1'', ''0xa2'', ''0xa3'', ''0xa4'', ''0xa5'',
      ''0xa6'', ''0xa7'', ''0xa8'', ''0xa9'', ''0xb2'']"
    by code_simp
  have g: "calls emptyWorld @ map (creditInput ?ctx ''order-1'')
      (filter (\<lambda>tx. \<not> beforeOrder ?ctx exampleOrder tx \<and> sweepToAccount ?ctx tx) ?ten) =
      [\<lparr>orderId = ''order-1'', txid = ''0xb1'', amount = ''0.0000000000000425'',
        uniqueId = ''ETH:0xb1''\<rparr>]"
    by code_simp
  from C2_only_the_value_rule_precedes_truncation [OF a b c d e, of emptyWorld] g
  have "fst (scanOrder ?ctx ''order-1'' emptyWorld) = Inr () \<and>
      calls (snd (scanOrder ?ctx ''order-1'' emptyWorld)) =
      [\<lparr>orderId = ''order-1'', txid = ''0xb1'', amount = ''0.0000000000000425'',
        uniqueId = ''ETH:0xb1''\<rparr>]"
    by simp
  with a b f show ?thesis by simp
qed

subsection \<open>C3: a failure of one candidate\<close>

text \<open>
  Claim C3 says that a candidate's failure leaves the others alone and that the task
  completes after all candidates. Nothing in the handler catches what \<open>scanTxId\<close> throws:
  the error leaves the mapper, \<open>pMap\<close> rejects, and so does the handler. Below, the first
  of two sweeps has no gas price, and the task ends with that error instead of returning.
\<close>

theorem C3_counterexample:
  "getEtherScanTxListForAddress (exampleContext (feedOf mixedFeed)) ''0xd3p0'' =
     Inr [exampleTx ''0xd0'' ''0xacc0'' ''800'' ''1400'' ''21000'' [],
          exampleTx ''0xd1'' ''0xacc0'' ''500'' ''1300'' ''21000'' ''2''] \<and>
   fst (scanOrder (exampleContext (feedOf mixedFeed)) ''order-1'' emptyWorld) =
     Inl (Error ''Unsupported EIP-1559 sweep transaction'') \<and>
   fst (scanOrder (exampleContext (feedOf mixedFeed)) ''order-1'' emptyWorld) \<noteq> Inr ()"
  by code_simp

text \<open>
  C3 as amended: when a candidate that is scanned fails, because lines 91-105 throw or
  because the credit call fails whatever the state of the ledger, the task does not
  complete: the handler rejects. When the task does complete, every one of the ten
  candidates has been processed, and the credit call of every one that got as far has been
  issued. What happens to the other candidates after a failure is left open: it depends on
  p-map.
\<close>

theorem C3_a_failure_rejects_the_task:
  assumes "findOneBy ctx oid = Inr (Some order)" and "depositAddress order = Some address"
    and "getEtherScanTxListForAddress ctx address = Inr fetched"
    and "\<forall>tx \<in> set fetched. \<not> isl (BigNumber_from ctx (value' tx))"
  shows "(failing \<in> set (take 10 (filter (valuePositive ctx) fetched)) \<and>
          \<not> beforeOrder ctx order failing \<and> sweepToAccount ctx failing \<and>
          (isl (prepareDeposit ctx failing oid) \<or>
           (\<forall>l. isl (fst (maybeInternalCreateDeposit ctx (creditInput ctx oid failing) l))))
          \<longrightarrow> isl (fst (scanOrder ctx oid s))) \<and>
         (fst (scanOrder ctx oid s) = Inr ()
          \<longrightarrow> candidatesLogged (logs (snd (scanOrder ctx oid s))) =
                candidatesLogged (logs s) @ map hash (take 10 (filter (valuePositive ctx) fetched)) \<and>
              calls (snd (scanOrder ctx oid s)) =
                calls s @ map (creditInput ctx oid)
                  (filter (\<lambda>tx. \<not> beforeOrder ctx order tx \<and> sweepToAccount ctx tx
                                 \<and> \<not> isl (prepareDeposit ctx tx oid))
                     (take 10 (filter (valuePositive ctx) fetched))))"
proof (intro conjI impI)
  have pos: "filterPositive ctx fetched = Inr (filter (valuePositive ctx) fetched)"
    using assms(4) by (rule filterPositive_Inr)
  {
    assume h: "failing \<in> set (take 10 (filter (valuePositive ctx) fetched)) \<and>
          \<not> beforeOrder ctx order failing \<and> sweepToAccount ctx failing \<and>
          (isl (prepareDeposit ctx failing oid) \<or>
           (\<forall>l. isl (fst (maybeInternalCreateDeposit ctx (creditInput ctx oid failing) l))))"
    then have fails: "\<And>s. isl (fst (scanCandidate ctx order oid failing s))"
      by (intro scanCandidate_fails) simp_all
    from h have mem: "failing \<in> set (take 10 (filter (valuePositive ctx) fetched))"
      by simp
    show "isl (fst (scanOrder ctx oid s))"
      by (rule scanOrder_rejects [OF assms(1-3) pos mem fails])
  }
  {
    assume "fst (scanOrder ctx oid s) = Inr ()"
    then have "\<not> isl (fst (scanOrder ctx oid s))" by simp
    from scanOrder_resolved [OF assms(1-3) pos this]
    show "candidatesLogged (logs (snd (scanOrder ctx oid s))) =
        candidatesLogged (logs s) @ map hash (take 10 (filter (valuePositive ctx) fetched))"
      and "calls (snd (scanOrder ctx oid s)) =
        calls s @ map (creditInput ctx oid)
          (filter (\<lambda>tx. \<not> beforeOrder ctx order tx \<and> sweepToAccount ctx tx
                         \<and> \<not> isl (prepareDeposit ctx tx oid))
             (take 10 (filter (valuePositive ctx) fetched)))"
      by (simp_all add: creditable_def [abs_def])
  }
qed

theorem C3_witness:
  "getEtherScanTxListForAddress (exampleContext (feedOf mixedFeed)) ''0xd3p0'' =
     Inr [exampleTx ''0xd0'' ''0xacc0'' ''800'' ''1400'' ''21000'' [],
          exampleTx ''0xd1'' ''0xacc0'' ''500'' ''1300'' ''21000'' ''2''] \<and>
   isl (prepareDeposit (exampleContext (feedOf mixedFeed))
          (exampleTx ''0xd0'' ''0xacc0'' ''800'' ''1400'' ''21000'' []) ''order-1'') \<and>
   isl (fst (scanOrder (exampleContext (feedOf mixedFeed)) ''order-1'' emptyWorld)) \<and>
   fst (scanOrder (exampleContext (feedOf scenarioFeed)) ''order-1'' emptyWorld) = Inr () \<and>
   candidatesLogged (logs (snd (scanOrder (exampleContext (feedOf scenarioFeed)) ''order-1''
      emptyWorld))) = [''0x90'', ''0x92'', ''0x93''] \<and>
   map txid (calls (snd (scanOrder (exampleContext (feedOf scenarioFeed)) ''order-1'' emptyWorld)))
     = [''0x93'']"
proof -
  let ?ctx = "exampleContext (feedOf mixedFeed)"
  let ?bad = "exampleTx ''0xd0'' ''0xacc0'' ''800'' ''1400'' ''21000'' []"
  let ?good = "exampleTx ''0xd1'' ''0xacc0'' ''500'' ''1300'' ''21000'' ''2''"
  have a: "findOneBy ?ctx ''order-1'' = Inr (Some exampleOrder)"
    by (simp add: exampleContext_def)
  have b: "depositAddress exampleOrder = Some ''0xd3p0''"
    by (simp add: exampleOrder_def)
  have c: "getEtherScanTxListForAddress ?ctx ''0xd3p0'' = Inr [?bad, ?good]"
    by code_simp
  have d: "\<forall>tx \<in> set [?bad, ?good]. \<not> isl (BigNumber_from ?ctx (value' tx))"
    by code_simp
  have e: "?bad \<in> set (take 10 (filter (valuePositive ?ctx) [?bad, ?good]))"
    by code_simp
  have f: "\<not> beforeOrder ?ctx exampleOrder ?bad" by code_simp
  have g: "sweepToAccount ?ctx ?bad" by code_simp
  have h: "isl (prepareDeposit ?ctx ?bad ''order-1'')" by code_simp
  from C3_a_failure_rejects_the_task [OF a b c d, where failing = ?bad and s = emptyWorld] e f g h
  have rejected: "isl (fst (scanOrder ?ctx ''order-1'' emptyWorld))" by blast
  let ?ctx' = "exampleContext (feedOf scenarioFeed)"
  let ?fetched = "projr (getEtherScanTxListForAddress ?ctx' ''0xd3p0'')"
  have a': "findOneBy ?ctx' ''order-1'' = Inr (Some exampleOrder)"
    by (simp add: exampleContext_def)
  have "\<not> isl (getEtherScanTxListForAddress ?ctx' ''0xd3p0'')" by code_simp
  then have c': "getEtherScanTxListForAddress ?ctx' ''0xd3p0'' = Inr ?fetched" by simp
  have d': "\<forall>tx \<in> set ?fetched. \<not> isl (BigNumber_from ?ctx' (value' tx))"
    by code_simp
  have i: "fst (scanOrder ?ctx' ''order-1'' emptyWorld) = Inr ()" by code_simp
  have j: "candidatesLogged (logs emptyWorld) @
      map hash (take 10 (filter (valuePositive ?ctx') ?fetched)) = [''0x90'', ''0x92'', ''0x93'']"
    by code_simp
  have k: "map txid (calls emptyWorld @ map (creditInput ?ctx' ''order-1'')
      (filter (\<lambda>tx. \<not> beforeOrder ?ctx' exampleOrder tx \<and> sweepToAccount ?ctx' tx
                     \<and> \<not> isl (prepareDeposit ?ctx' tx ''order-1''))
         (take 10 (filter (valuePositive ?ctx') ?fetched)))) = [''0x93'']"
    by code_simp
  from C3_a_failure_rejects_the_task [OF a' b c' d', where s = emptyWorld] i
  have "candidatesLogged (logs (snd (scanOrder ?ctx' ''order-1'' emptyWorld))) =
        candidatesLogged (logs emptyWorld) @
          map hash (take 10 (filter (valuePositive ?ctx') ?fetched)) \<and>
      calls (snd (scanOrder ?ctx' ''order-1'' emptyWorld)) =
        calls emptyWorld @ map (creditInput ?ctx' ''order-1'')
          (filter (\<lambda>tx. \<not> beforeOrder ?ctx' exampleOrder tx \<and> sweepToAccount ?ctx' tx
                         \<and> \<not> isl (prepareDeposit ?ctx' tx ''order-1''))
             (take 10 (filter (valuePositive ?ctx') ?fetched)))"
    by blast
  with j k have "candidatesLogged (logs (snd (scanOrder ?ctx' ''order-1'' emptyWorld))) =
        [''0x90'', ''0x92'', ''0x93''] \<and>
      map txid (calls (snd (scanOrder ?ctx' ''order-1'' emptyWorld))) = [''0x93'']"
    by simp
  with c h rejected i show ?thesis by simp
qed

subsection \<open>C4: a failed fetch\<close>

text \<open>
  Claim C4 says that a failed fetch of the transaction feed ends the task as failed, reported
  to the queue. The handler catches the error of the fetch (lines 179-185), logs it and
  returns. At the input below the transport fails and the handler returns \<open>Inr ()\<close>: its
  promise resolves, nothing is reported to the queue.
\<close>

theorem C4_counterexample:
  "getEtherScanTxListForAddress (exampleContext offline) ''0xd3p0''
     = Inl (AxiosError ''timeout of 1000ms exceeded'') \<and>
   fst (scanOrder (exampleContext offline) ''order-1'' emptyWorld) = Inr () \<and>
   \<not> isl (fst (scanOrder (exampleContext offline) ''order-1'' emptyWorld))"
  by code_simp

text \<open>
  C4 as amended: whenever the fetch fails, whatever the error, the handler logs the error
  with its message and returns normally; it issues no credit call and leaves the ledger as
  it was.
\<close>

theorem C4_fetch_failure_is_logged_and_task_returns:
  assumes "findOneBy ctx oid = Inr (Some order)" and "depositAddress order = Some address"
    and "getEtherScanTxListForAddress ctx address = Inl err"
  shows "scanOrder ctx oid s =
           (Inr (),
            s\<lparr>logs := logs s @
                 [Log LInfo None ''Processing queued task to look at order %s for deposits'' [S oid],
                  Log LError (Some err) ''Error fetching txs for order %s: %s''
                    [S oid, S (message err)]]\<rparr>)"
  using assms by (simp add: scanOrder_def logger_def Let_def)

theorem C4_witness:
  "findOneBy (exampleContext rateLimited) ''order-1'' = Inr (Some exampleOrder) \<and>
   depositAddress exampleOrder = Some ''0xd3p0'' \<and>
   getEtherScanTxListForAddress (exampleContext rateLimited) ''0xd3p0''
     = Inl (Error ''Received error Max rate limit reached from Etherscan API'') \<and>
   scanOrder (exampleContext rateLimited) ''order-1'' emptyWorld =
     (Inr (),
      \<lparr>ledger = [], calls = [],
       logs = [Log LInfo None ''Processing queued task to look at order %s for deposits''
                 [S ''order-1''],
               Log LError (Some (Error ''Received error Max rate limit reached from Etherscan API''))
                 ''Error fetching txs for order %s: %s''
                 [S ''order-1'', S ''Received error Max rate limit reached from Etherscan API'']]\<rparr>)"
proof -
  have a: "findOneBy (exampleContext rateLimited) ''order-1'' = Inr (Some exampleOrder)"
    by (simp add: exampleContext_def)
  have b: "depositAddress exampleOrder = Some ''0xd3p0''"
    by (simp add: exampleOrder_def)
  have c: "getEtherScanTxListForAddress (exampleContext rateLimited) ''0xd3p0''
             = Inl (Error ''Received error Max rate limit reached from Etherscan API'')"
    by code_simp
  from a b c C4_fetch_failure_is_logged_and_task_returns [OF a b c, of emptyWorld]
  show ?thesis by (simp add: emptyWorld_def)
qed

subsection \<open>C5: who is credited\<close>

text \<open>
  C5: every credit call that a task issues is for a transaction of the fetched feed whose
  \<open>to\<close> is present and equals the account address up to case, whose value is a number
  greater than 0, and which is not older than the order: the test of line 220 is false for
  it, that is, its timestamp times 1000 is at least the creation time whenever
  \<open>Number\<close> reads a number from the field.
\<close>

theorem C5_only_eligible_transactions_are_credited:
  assumes "c \<in> set (calls (snd (scanOrder ctx oid s)))" and "c \<notin> set (calls s)"
  shows "\<exists>order address fetched tx.
           findOneBy ctx oid = Inr (Some order) \<and> depositAddress order = Some address \<and>
           getEtherScanTxListForAddress ctx address = Inr fetched \<and>
           tx \<in> set fetched \<and> txid c = hash tx \<and> orderId c = oid \<and>
           to tx \<noteq> [] \<and> toLowerCase (to tx) = toLowerCase (account ctx) \<and>
           (\<exists>v. BigNumber_from ctx (value' tx) = Inr v \<and> 0 < v) \<and>
           \<not> beforeOrder ctx order tx \<and>
           (case js_Number ctx (timeStamp tx) of
              None \<Rightarrow> True
            | Some seconds \<Rightarrow> createdAt order \<le> seconds * 1000)"
proof -
  from assms have "calls (snd (scanOrder ctx oid s)) \<noteq> calls s" by auto
  with scanOrder_off_path [of ctx oid s]
  obtain order address fetched positive where
    order: "findOneBy ctx oid = Inr (Some order)" and address: "depositAddress order = Some address"
    and fetched: "getEtherScanTxListForAddress ctx address = Inr fetched"
    and positive: "filterPositive ctx fetched = Inr positive"
    by blast
  from scanOrder_started [OF order address fetched positive, of s]
  obtain zs where zs: "set zs \<subseteq> set (take 10 (filter (valuePositive ctx) fetched))"
    and new: "calls (snd (scanOrder ctx oid s)) =
      calls s @ map (creditInput ctx oid) (filter (creditable ctx order oid) zs)"
    by blast
  from new assms obtain tx where "tx \<in> set zs"
    and creditable: "creditable ctx order oid tx" and c: "c = creditInput ctx oid tx"
    by auto
  with zs have tx: "tx \<in> set (take 10 (filter (valuePositive ctx) fetched))" by blast
  from tx have "tx \<in> set (filter (valuePositive ctx) fetched)"
    by (rule in_set_takeD)
  then have mem: "tx \<in> set fetched" and pos: "valuePositive ctx tx" by simp_all
  from pos have amount_pos: "\<exists>v. BigNumber_from ctx (value' tx) = Inr v \<and> 0 < v"
    by (auto simp: valuePositive_def split: sum.splits)
  from creditable have sweep: "to tx \<noteq> []" "toLowerCase (to tx) = toLowerCase (account ctx)"
    and time: "\<not> beforeOrder ctx order tx" and settled: "\<not> isl (prepareDeposit ctx tx oid)"
    by (simp_all add: creditable_def sweepToAccount_def)
  from time have time': "(case js_Number ctx (timeStamp tx) of None \<Rightarrow> True
      | Some seconds \<Rightarrow> createdAt order \<le> seconds * 1000)"
    by (auto simp: beforeOrder_def split: option.splits)
  from creditInput_fields [OF settled] c have "txid c = hash tx" "orderId c = oid" by simp_all
  with order address fetched mem sweep amount_pos time time' show ?thesis by blast
qed

theorem C5_witness:
  "calls (snd (scanOrder (exampleContext (feedOf scenarioFeed)) ''order-1'' emptyWorld)) =
     [\<lparr>orderId = ''order-1'', txid = ''0x93'', amount = ''0.0000000000000425'',
       uniqueId = ''ETH:0x93''\<rparr>] \<and>
   calls emptyWorld = [] \<and>
   (\<exists>order address fetched tx.
      findOneBy (exampleContext (feedOf scenarioFeed)) ''order-1'' = Inr (Some order) \<and>
      depositAddress order = Some address \<and>
      getEtherScanTxListForAddress (exampleContext (feedOf scenarioFeed)) address = Inr fetched \<and>
      tx \<in> set fetched \<and> hash tx = ''0x93'' \<and>
      to tx \<noteq> [] \<and> toLowerCase (to tx) = toLowerCase (account (exampleContext (feedOf scenarioFeed))) \<and>
      (\<exists>v. BigNumber_from (exampleContext (feedOf scenarioFeed)) (value' tx) = Inr v \<and> 0 < v) \<and>
      \<not> beforeOrder (exampleContext (feedOf scenarioFeed)) order tx)"
proof -
  let ?ctx = "exampleContext (feedOf scenarioFeed)"
  let ?c = "\<lparr>orderId = ''order-1'', txid = ''0x93'', amount = ''0.0000000000000425'',
       uniqueId = ''ETH:0x93''\<rparr>"
  have a: "calls (snd (scanOrder ?ctx ''order-1'' emptyWorld)) = [?c]"
    by code_simp
  have b: "calls emptyWorld = []" by (simp add: emptyWorld_def)
  from a have c: "?c \<in> set (calls (snd (scanOrder ?ctx ''order-1'' emptyWorld)))" by simp
  from b have d: "?c \<notin> set (calls emptyWorld)" by simp
  from C5_only_eligible_transactions_are_credited [OF c d]
  have "\<exists>order address fetched tx.
      findOneBy ?ctx ''order-1'' = Inr (Some order) \<and>
      depositAddress order = Some address \<and>
      getEtherScanTxListForAddress ?ctx address = Inr fetched \<and>
      tx \<in> set fetched \<and> hash tx = ''0x93'' \<and>
      to tx \<noteq> [] \<and> toLowerCase (to tx) = toLowerCase (account ?ctx) \<and>
      (\<exists>v. BigNumber_from ?ctx (value' tx) = Inr v \<and> 0 < v) \<and>
      \<not> beforeOrder ?ctx order tx"
    by (elim exE conjE, intro exI conjI) simp_all
  with a b show ?thesis by blast
qed

subsection \<open>C6: the total\<close>

text \<open>
  C6: with \<open>ns\<close> the exact arithmetic on decimal numerals, the total of line 95 for a
  transaction with value \<open>v\<close>, gas \<open>g\<close> and gas price \<open>p\<close> is the numeral of
  \<open>v + g * p\<close>; the field \<open>gasUsed\<close> plays no part. For 1000, 21000 and 10 the total is
  \<open>211000\<close>.
\<close>

theorem C6_total_is_value_plus_gas_times_gas_price:
  assumes "ns_sum ctx = ns_sum_exact" and "ns_times ctx = ns_times_exact"
    and "nat_of_dec (value' tx) = Some v" and "nat_of_dec (gas tx) = Some g"
    and "nat_of_dec (gasPrice tx) = Some p"
  shows "settlementTotal ctx tx = Inr (dec_digits (v + g * p)) \<and>
         nat_of_dec (dec_digits (v + g * p)) = Some (v + g * p) \<and>
         settlementTotal ctx (tx\<lparr>gasUsed := used\<rparr>) = settlementTotal ctx tx"
proof -
  have v: "0 \<le> v" and g: "0 \<le> g" and p: "0 \<le> p"
    using assms(3-5) by (auto dest: nat_of_dec_nonneg)
  then have fee: "0 \<le> g * p" and sum: "0 \<le> v + g * p" by simp_all
  have "ns_times ctx (gas tx) (gasPrice tx) = Inr (dec_digits (g * p))"
    using assms(2,4,5) by (simp add: ns_times_exact_def)
  moreover have "ns_sum ctx (value' tx) (dec_digits (g * p)) = Inr (dec_digits (v + g * p))"
    using assms(1,3) fee by (simp add: ns_sum_exact_def nat_of_dec_dec_digits)
  ultimately have "settlementTotal ctx tx = Inr (dec_digits (v + g * p))"
    by (simp add: settlementTotal_def)
  moreover have "nat_of_dec (dec_digits (v + g * p)) = Some (v + g * p)"
    using sum by (rule nat_of_dec_dec_digits)
  moreover have "settlementTotal ctx (tx\<lparr>gasUsed := used\<rparr>) = settlementTotal ctx tx"
    by (simp add: settlementTotal_def split: sum.splits)
  ultimately show ?thesis by simp
qed

theorem C6_witness:
  "ns_sum (exampleContext offline) = ns_sum_exact \<and>
   ns_times (exampleContext offline) = ns_times_exact \<and>
   nat_of_dec ''1000'' = Some 1000 \<and> nat_of_dec ''21000'' = Some 21000 \<and>
   nat_of_dec ''10'' = Some 10 \<and>
   settlementTotal (exampleContext offline)
     (exampleTx ''0xf0'' ''0xacc0'' ''1000'' ''1300'' ''21000'' ''10'') = Inr ''211000''"
proof -
  let ?ctx = "exampleContext offline"
  let ?tx = "exampleTx ''0xf0'' ''0xacc0'' ''1000'' ''1300'' ''21000'' ''10''"
  have a: "ns_sum ?ctx = ns_sum_exact" by (simp add: exampleContext_def)
  have b: "ns_times ?ctx = ns_times_exact" by (simp add: exampleContext_def)
  have c: "nat_of_dec ''1000'' = Some 1000" by code_simp
  have d: "nat_of_dec ''21000'' = Some 21000" by code_simp
  have e: "nat_of_dec ''10'' = Some 10" by code_simp
  have c': "nat_of_dec (value' ?tx) = Some 1000" using c by (simp add: exampleTx_def)
  have d': "nat_of_dec (gas ?tx) = Some 21000" using d by (simp add: exampleTx_def)
  have e': "nat_of_dec (gasPrice ?tx) = Some 10" using e by (simp add: exampleTx_def)
  have f: "dec_digits (1000 + 21000 * 10) = ''211000''" by code_simp
  from C6_total_is_value_plus_gas_times_gas_price [OF a b c' d' e']
  have "settlementTotal ?ctx ?tx = Inr (dec_digits (1000 + 21000 * 10))" by (rule conjunct1)
  with f have "settlementTotal ?ctx ?tx = Inr ''211000''" by simp
  with a b c d e show ?thesis by simp
qed

subsection \<open>C7: a missing gas price\<close>

text \<open>
  Claim C7 says that a missing gas price makes settlement fail with an error that is scoped
  to the one transaction, and that the credit operation is not called for it. The error is
  thrown and the credit call is not made, but nothing confines the error to the
  transaction: below, the second of two sweeps has the empty gas price, \<open>scanTxId\<close>
  throws on it, and the task rejects with that error. A row that has no \<open>gasPrice\<close> at
  all does not get as far: the schema refuses the whole feed.
\<close>

theorem C7_counterexample:
  "getEtherScanTxListForAddress (exampleContext (feedOf unpricedFeed)) ''0xd3p0'' =
     Inr [exampleTx ''0xe1'' ''0xacc0'' ''500'' ''1500'' ''21000'' ''2'',
          exampleTx ''0xe2'' ''0xacc0'' ''800'' ''1400'' ''21000'' []] \<and>
   fst (scanTxId (exampleContext (feedOf unpricedFeed))
          (exampleTx ''0xe2'' ''0xacc0'' ''800'' ''1400'' ''21000'' []) ''order-1'' emptyWorld) =
     Inl (Error ''Unsupported EIP-1559 sweep transaction'') \<and>
   fst (scanOrder (exampleContext (feedOf unpricedFeed)) ''order-1'' emptyWorld) =
     Inl (Error ''Unsupported EIP-1559 sweep transaction'') \<and>
   getEtherScanTxListForAddress
       (exampleContext (feedOf [exampleRow ''0xe1'' ''0xacc0'' ''500'' ''1500'' ''21000'' ''2'',
                                JObj bindingsWithoutGasPrice])) ''0xd3p0'' =
     Inl (ZodError ''invalid_type'')"
  by code_simp

text \<open>
  C7 as amended: for a transaction that passes the two tests on \<open>to\<close> and has the empty
  gas price, \<open>scanTxId\<close> throws \<open>Unsupported EIP-1559 sweep transaction\<close> and changes
  nothing: the credit call is not issued, the ledger is untouched, nothing is logged. The
  error is not caught: a task that has the transaction among its ten candidates and scans
  it rejects. A feed with a row that binds no \<open>gasPrice\<close> is refused by the schema.
\<close>

theorem C7_missing_gas_price_throws_and_rejects_the_task:
  assumes "to tx \<noteq> []" and "toLowerCase (to tx) = toLowerCase (account ctx)"
    and "gasPrice tx = []"
  shows "scanTxId ctx tx oid s = (Inl (Error ''Unsupported EIP-1559 sweep transaction''), s) \<and>
         (findOneBy ctx oid = Inr (Some order) \<and> depositAddress order = Some address \<and>
          getEtherScanTxListForAddress ctx address = Inr fetched \<and>
          (\<forall>t \<in> set fetched. \<not> isl (BigNumber_from ctx (value' t))) \<and>
          tx \<in> set (take 10 (filter (valuePositive ctx) fetched)) \<and>
          \<not> beforeOrder ctx order tx
          \<longrightarrow> isl (fst (scanOrder ctx oid s))) \<and>
         (map_of kvs ''gasPrice'' = None
          \<longrightarrow> accountTxListResultSchema_parse (JArr (rows @ JObj kvs # rest)) =
                Inl (ZodError ''invalid_type''))"
proof (intro conjI impI)
  show "scanTxId ctx tx oid s = (Inl (Error ''Unsupported EIP-1559 sweep transaction''), s)"
    using assms by (simp add: scanTxId_def prepareDeposit_def)
next
  assume h: "findOneBy ctx oid = Inr (Some order) \<and> depositAddress order = Some address \<and>
          getEtherScanTxListForAddress ctx address = Inr fetched \<and>
          (\<forall>t \<in> set fetched. \<not> isl (BigNumber_from ctx (value' t))) \<and>
          tx \<in> set (take 10 (filter (valuePositive ctx) fetched)) \<and>
          \<not> beforeOrder ctx order tx"
  then have main: "findOneBy ctx oid = Inr (Some order)" "depositAddress order = Some address"
    "getEtherScanTxListForAddress ctx address = Inr fetched" by simp_all
  from h have "\<forall>t \<in> set fetched. \<not> isl (BigNumber_from ctx (value' t))" by simp
  then have pos: "filterPositive ctx fetched = Inr (filter (valuePositive ctx) fetched)"
    by (rule filterPositive_Inr)
  from h have mem: "tx \<in> set (take 10 (filter (valuePositive ctx) fetched))" by simp
  have "isl (prepareDeposit ctx tx oid)"
    using assms(3) by (simp add: prepareDeposit_def)
  with h assms(1,2) have fails: "\<And>s. isl (fst (scanCandidate ctx order oid tx s))"
    by (intro scanCandidate_fails) (simp_all add: sweepToAccount_def)
  show "isl (fst (scanOrder ctx oid s))"
    by (rule scanOrder_rejects [OF main pos mem fails])
next
  assume "map_of kvs ''gasPrice'' = None"
  then show "accountTxListResultSchema_parse (JArr (rows @ JObj kvs # rest)) =
      Inl (ZodError ''invalid_type'')"
    by (rule parse_without_gasPrice)
qed

theorem C7_witness:
  "to (exampleTx ''0xe2'' ''0xacc0'' ''800'' ''1400'' ''21000'' []) \<noteq> [] \<and>
   toLowerCase (to (exampleTx ''0xe2'' ''0xacc0'' ''800'' ''1400'' ''21000'' []))
     = toLowerCase (account (exampleContext (feedOf unpricedFeed))) \<and>
   gasPrice (exampleTx ''0xe2'' ''0xacc0'' ''800'' ''1400'' ''21000'' []) = [] \<and>
   scanTxId (exampleContext (feedOf unpricedFeed))
       (exampleTx ''0xe2'' ''0xacc0'' ''800'' ''1400'' ''21000'' []) ''order-1'' emptyWorld
     = (Inl (Error ''Unsupported EIP-1559 sweep transaction''), emptyWorld) \<and>
   isl (fst (scanOrder (exampleContext (feedOf unpricedFeed)) ''order-1'' emptyWorld)) \<and>
   map_of bindingsWithoutGasPrice ''gasPrice'' = None \<and>
   accountTxListResultSchema_parse
       (JArr ([exampleRow ''0xe1'' ''0xacc0'' ''500'' ''1500'' ''21000'' ''2'']
              @ JObj bindingsWithoutGasPrice # [])) = Inl (ZodError ''invalid_type'')"
proof -
  let ?ctx = "exampleContext (feedOf unpricedFeed)"
  let ?good = "exampleTx ''0xe1'' ''0xacc0'' ''500'' ''1500'' ''21000'' ''2''"
  let ?tx = "exampleTx ''0xe2'' ''0xacc0'' ''800'' ''1400'' ''21000'' []"
  have a: "to ?tx \<noteq> []" by (simp add: exampleTx_def)
  have b: "toLowerCase (to ?tx) = toLowerCase (account ?ctx)" by code_simp
  have c: "gasPrice ?tx = []" by (simp add: exampleTx_def)
  have d: "findOneBy ?ctx ''order-1'' = Inr (Some exampleOrder)"
    by (simp add: exampleContext_def)
  have e: "depositAddress exampleOrder = Some ''0xd3p0''"
    by (simp add: exampleOrder_def)
  have f: "getEtherScanTxListForAddress ?ctx ''0xd3p0'' = Inr [?good, ?tx]"
    by code_simp
  have g: "\<forall>t \<in> set [?good, ?tx]. \<not> isl (BigNumber_from ?ctx (value' t))"
    by code_simp
  have h: "?tx \<in> set (take 10 (filter (valuePositive ?ctx) [?good, ?tx]))"
    by code_simp
  have i: "\<not> beforeOrder ?ctx exampleOrder ?tx" by code_simp
  have j: "map_of bindingsWithoutGasPrice ''gasPrice'' = None" by code_simp
  note main = C7_missing_gas_price_throws_and_rejects_the_task
    [OF a b c, where oid = "''order-1''" and s = emptyWorld and order = exampleOrder
       and address = "''0xd3p0''" and fetched = "[?good, ?tx]"
       and kvs = bindingsWithoutGasPrice and rows = "[exampleRow ''0xe1'' ''0xacc0'' ''500''
       ''1500'' ''21000'' ''2'']" and rest = "[]"]
  from main have "scanTxId ?ctx ?tx ''order-1'' emptyWorld
      = (Inl (Error ''Unsupported EIP-1559 sweep transaction''), emptyWorld)"
    by (rule conjunct1)
  moreover from main d e f g h i
  have "isl (fst (scanOrder ?ctx ''order-1'' emptyWorld))" by blast
  moreover from main j
  have "accountTxListResultSchema_parse
       (JArr ([exampleRow ''0xe1'' ''0xacc0'' ''500'' ''1500'' ''21000'' ''2'']
              @ JObj bindingsWithoutGasPrice # [])) = Inl (ZodError ''invalid_type'')"
    by blast
  ultimately show ?thesis using a b c j by simp
qed

subsection \<open>C8: ten at most, the first ten\<close>

text \<open>
  C8: a task processes at most ten transactions and issues at most ten credit calls. When
  the feed has at least ten transactions and all of them are eligible, the list handed to
  \<open>pMap\<close> is the first ten of the feed, in the order of the feed. When moreover settlement
  and credit cannot fail for these ten, the transactions processed are these ten, in that
  order, and each of them is credited.
\<close>

theorem C8_at_most_ten_processed_first_ten_in_order:
  "(\<exists>hs cs.
      candidatesLogged (logs (snd (scanOrder ctx oid s))) = candidatesLogged (logs s) @ hs \<and>
      length hs \<le> 10 \<and>
      calls (snd (scanOrder ctx oid s)) = calls s @ cs \<and> length cs \<le> 10) \<and>
   (findOneBy ctx oid = Inr (Some order) \<and> depositAddress order = Some address \<and>
    getEtherScanTxListForAddress ctx address = Inr fetched \<and>
    (\<forall>tx \<in> set fetched. spec_eligible ctx order tx) \<and> 10 \<le> length fetched
    \<longrightarrow> snd (scanOrder ctx oid s) =
          snd (pMap (pMap_startsLate ctx) (pMap_firstRejected ctx) (scanCandidate ctx order oid)
                 (take 10 fetched)
                 (logger LInfo None ''Found %s transactions for order %s'' [N 10, S oid]
                    (logger LInfo None ''Processing queued task to look at order %s for deposits''
                       [S oid] s)))) \<and>
   (findOneBy ctx oid = Inr (Some order) \<and> depositAddress order = Some address \<and>
    getEtherScanTxListForAddress ctx address = Inr fetched \<and>
    (\<forall>tx \<in> set fetched. spec_eligible ctx order tx) \<and> 10 \<le> length fetched \<and>
    (\<forall>tx \<in> set (take 10 fetched). creditSucceeds ctx oid tx)
    \<longrightarrow> candidatesLogged (logs (snd (scanOrder ctx oid s))) =
          candidatesLogged (logs s) @ map hash (take 10 fetched) \<and>
        calls (snd (scanOrder ctx oid s)) =
          calls s @ map (creditInput ctx oid) (take 10 fetched))"
proof (intro conjI impI)
  show "\<exists>hs cs.
      candidatesLogged (logs (snd (scanOrder ctx oid s))) = candidatesLogged (logs s) @ hs \<and>
      length hs \<le> 10 \<and>
      calls (snd (scanOrder ctx oid s)) = calls s @ cs \<and> length cs \<le> 10"
  proof (cases "\<exists>order address fetched positive.
              findOneBy ctx oid = Inr (Some order) \<and> depositAddress order = Some address \<and>
              getEtherScanTxListForAddress ctx address = Inr fetched \<and>
              filterPositive ctx fetched = Inr positive")
    case False
    from scanOrder_off_path [OF False, of s] show ?thesis by simp
  next
    case True
    then obtain order' address' fetched' positive' where
      main: "findOneBy ctx oid = Inr (Some order')" "depositAddress order' = Some address'"
        "getEtherScanTxListForAddress ctx address' = Inr fetched'"
        "filterPositive ctx fetched' = Inr positive'"
      by blast
    from scanOrder_started [OF main, of s] obtain zs where
      zs: "length zs \<le> 10"
      "calls (snd (scanOrder ctx oid s)) =
         calls s @ map (creditInput ctx oid) (filter (creditable ctx order' oid) zs)"
      "candidatesLogged (logs (snd (scanOrder ctx oid s))) =
         candidatesLogged (logs s) @ map hash zs"
      by blast
    have "length (map hash zs) \<le> 10" using zs(1) by simp
    moreover have "length (map (creditInput ctx oid) (filter (creditable ctx order' oid) zs)) \<le> 10"
      using length_filter_le [of "creditable ctx order' oid" zs] zs(1)
      by (simp only: length_map)
    ultimately show ?thesis using zs(2,3) by blast
  qed
next
  assume h: "findOneBy ctx oid = Inr (Some order) \<and> depositAddress order = Some address \<and>
    getEtherScanTxListForAddress ctx address = Inr fetched \<and>
    (\<forall>tx \<in> set fetched. spec_eligible ctx order tx) \<and> 10 \<le> length fetched"
  then have eligible: "\<forall>tx \<in> set fetched. spec_eligible ctx order tx" by simp
  then have all_pos: "filter (valuePositive ctx) fetched = fetched"
    by (simp add: spec_eligible_def)
  from eligible have "\<forall>tx \<in> set fetched. \<not> isl (BigNumber_from ctx (value' tx))"
    by (auto simp: spec_eligible_def valuePositive_def isl_def split: sum.splits)
  then have pos: "filterPositive ctx fetched = Inr fetched"
    using filterPositive_Inr [of fetched ctx] all_pos by simp
  from h have main: "findOneBy ctx oid = Inr (Some order)" "depositAddress order = Some address"
    "getEtherScanTxListForAddress ctx address = Inr fetched" by simp_all
  from h have "length (take 10 fetched) = 10" by simp
  then show "snd (scanOrder ctx oid s) =
      snd (pMap (pMap_startsLate ctx) (pMap_firstRejected ctx) (scanCandidate ctx order oid)
             (take 10 fetched)
             (logger LInfo None ''Found %s transactions for order %s'' [N 10, S oid]
                (logger LInfo None ''Processing queued task to look at order %s for deposits''
                   [S oid] s)))"
    by (simp add: scanOrder_snd [OF main pos] pMap_snd)
next
  assume h: "findOneBy ctx oid = Inr (Some order) \<and> depositAddress order = Some address \<and>
    getEtherScanTxListForAddress ctx address = Inr fetched \<and>
    (\<forall>tx \<in> set fetched. spec_eligible ctx order tx) \<and> 10 \<le> length fetched \<and>
    (\<forall>tx \<in> set (take 10 fetched). creditSucceeds ctx oid tx)"
  then have eligible: "\<forall>tx \<in> set fetched. spec_eligible ctx order tx" by simp
  then have all_pos: "filter (valuePositive ctx) fetched = fetched"
    by (simp add: spec_eligible_def)
  from eligible have "\<forall>tx \<in> set fetched. \<not> isl (BigNumber_from ctx (value' tx))"
    by (auto simp: spec_eligible_def valuePositive_def isl_def split: sum.splits)
  then have pos: "filterPositive ctx fetched = Inr (filter (valuePositive ctx) fetched)"
    by (rule filterPositive_Inr)
  from h have main: "findOneBy ctx oid = Inr (Some order)" "depositAddress order = Some address"
    "getEtherScanTxListForAddress ctx address = Inr fetched" by simp_all
  from h have succeed: "\<forall>tx \<in> set (take 10 fetched). creditSucceeds ctx oid tx" by simp
  then have "\<And>tx s. tx \<in> set (take 10 (filter (valuePositive ctx) fetched))
      \<Longrightarrow> \<not> isl (fst (scanCandidate ctx order oid tx s))"
    unfolding all_pos by (intro scanCandidate_succeeds) blast
  then have resolved: "\<not> isl (fst (scanOrder ctx oid s))"
    by (rule scanOrder_completes [OF main pos])
  from eligible succeed have "\<forall>tx \<in> set (take 10 fetched). creditable ctx order oid tx"
    by (auto simp: creditable_def spec_eligible_def sweepToAccount_def creditSucceeds_def
        dest: in_set_takeD)
  then have same: "filter (creditable ctx order oid) (take 10 fetched) = take 10 fetched"
    by simp
  show "candidatesLogged (logs (snd (scanOrder ctx oid s))) =
          candidatesLogged (logs s) @ map hash (take 10 fetched)"
    using scanOrder_resolved [OF main pos resolved] all_pos by simp
  show "calls (snd (scanOrder ctx oid s)) =
          calls s @ map (creditInput ctx oid) (take 10 fetched)"
    using scanOrder_resolved [OF main pos resolved] all_pos same by simp
qed

theorem C8_witness:
  "findOneBy (exampleContext (feedOf sweepFeed)) ''order-1'' = Inr (Some exampleOrder) \<and>
   depositAddress exampleOrder = Some ''0xd3p0'' \<and>
   getEtherScanTxListForAddress (exampleContext (feedOf sweepFeed)) ''0xd3p0'' =
     Inr (map (\<lambda>h. exampleTx h ''0xACC0'' ''500'' ''1300'' ''21000'' ''2'') elevenSweeps) \<and>
   length (map (\<lambda>h. exampleTx h ''0xACC0'' ''500'' ''1300'' ''21000'' ''2'') elevenSweeps) = 11 \<and>
   candidatesLogged (logs (snd (scanOrder (exampleContext (feedOf sweepFeed)) ''order-1''
      emptyWorld))) =
     [''0xc0'', ''0xc1'', ''0xc2'', ''0xc3'', ''0xc4'', ''0xc5'', ''0xc6'', ''0xc7'', ''0xc8'',
      ''0xc9''] \<and>
   map txid (calls (snd (scanOrder (exampleContext (feedOf sweepFeed)) ''order-1'' emptyWorld))) =
     [''0xc0'', ''0xc1'', ''0xc2'', ''0xc3'', ''0xc4'', ''0xc5'', ''0xc6'', ''0xc7'', ''0xc8'',
      ''0xc9'']"
proof -
  let ?ctx = "exampleContext (feedOf sweepFeed)"
  let ?fetched = "map (\<lambda>h. exampleTx h ''0xACC0'' ''500'' ''1300'' ''21000'' ''2'') elevenSweeps"
  let ?ten = "[''0xc0'', ''0xc1'', ''0xc2'', ''0xc3'', ''0xc4'', ''0xc5'', ''0xc6'', ''0xc7'',
      ''0xc8'', ''0xc9'']"
  have a: "findOneBy ?ctx ''order-1'' = Inr (Some exampleOrder)"
    by (simp add: exampleContext_def)
  have b: "depositAddress exampleOrder = Some ''0xd3p0''"
    by (simp add: exampleOrder_def)
  have c: "getEtherScanTxListForAddress ?ctx ''0xd3p0'' = Inr ?fetched"
    by code_simp
  have d: "\<forall>tx \<in> set ?fetched. spec_eligible ?ctx exampleOrder tx"
    by code_simp
  have e: "10 \<le> length ?fetched" by code_simp
  have e': "length ?fetched = 11" by code_simp
  have "\<forall>tx \<in> set (take 10 ?fetched). \<not> isl (prepareDeposit ?ctx tx ''order-1'')"
    by code_simp
  then have f: "\<forall>tx \<in> set (take 10 ?fetched). creditSucceeds ?ctx ''order-1'' tx"
    by (simp add: creditSucceeds_def exampleLedger_answers)
  have g: "candidatesLogged (logs emptyWorld) @ map hash (take 10 ?fetched) = ?ten"
    by code_simp
  have h: "map txid (calls emptyWorld @ map (creditInput ?ctx ''order-1'') (take 10 ?fetched))
      = ?ten"
    by code_simp
  from C8_at_most_ten_processed_first_ten_in_order
    [of ?ctx "''order-1''" emptyWorld exampleOrder "''0xd3p0''" ?fetched] a b c d e f
  have "candidatesLogged (logs (snd (scanOrder ?ctx ''order-1'' emptyWorld))) =
          candidatesLogged (logs emptyWorld) @ map hash (take 10 ?fetched) \<and>
        calls (snd (scanOrder ?ctx ''order-1'' emptyWorld)) =
          calls emptyWorld @ map (creditInput ?ctx ''order-1'') (take 10 ?fetched)"
    by blast
  with g h have "candidatesLogged (logs (snd (scanOrder ?ctx ''order-1'' emptyWorld))) = ?ten \<and>
      map txid (calls (snd (scanOrder ?ctx ''order-1'' emptyWorld))) = ?ten"
    by simp
  with a b c e' show ?thesis by simp
qed

subsection \<open>C9: an error answer of the provider\<close>



subsection \<open>C10: scanTxId does not test the value\<close>

text \<open>
  C10: there is an input on which \<open>scanTxId\<close>, called directly, issues a credit call for a
  transaction of value \<open>"0"\<close> sent to the account with a gas price: the total is gas times
  gas price, 21000 * 10 = 210000, and the amount of the call is its rendering in ether. The
  handler, given a feed with this one transaction, issues no call: the filter of line 188
  is the only place where the value is tested.
\<close>

theorem C10_scanTxId_credits_zero_value:
  "scanTxId (exampleContext (feedOf [exampleRow ''0xe0'' ''0xacc0'' ''0'' ''1300'' ''21000'' ''10'']))
       (exampleTx ''0xe0'' ''0xacc0'' ''0'' ''1300'' ''21000'' ''10'') ''order-1'' emptyWorld
     = (Inr True,
        \<lparr>ledger = [''ETH:0xe0''],
         calls = [\<lparr>orderId = ''order-1'', txid = ''0xe0'', amount = ''0.00000000000021'',
                   uniqueId = ''ETH:0xe0''\<rparr>],
         logs = [Log LInfo None ''Stored deposit. 0xe0. 0.0 ETH for order order-1'' []]\<rparr>) \<and>
   settlementTotal (exampleContext (feedOf [exampleRow ''0xe0'' ''0xacc0'' ''0'' ''1300'' ''21000'' ''10'']))
       (exampleTx ''0xe0'' ''0xacc0'' ''0'' ''1300'' ''21000'' ''10'') = Inr ''210000'' \<and>
   getEtherScanTxListForAddress
       (exampleContext (feedOf [exampleRow ''0xe0'' ''0xacc0'' ''0'' ''1300'' ''21000'' ''10'']))
       ''0xd3p0''
     = Inr [exampleTx ''0xe0'' ''0xacc0'' ''0'' ''1300'' ''21000'' ''10''] \<and>
   calls (snd (scanOrder
       (exampleContext (feedOf [exampleRow ''0xe0'' ''0xacc0'' ''0'' ''1300'' ''21000'' ''10'']))
       ''order-1'' emptyWorld)) = []"
  by code_simp

end
